theory Spec2Isabelle
  imports Main
begin

section \<open>Strings of the JavaScript runtime\<close>

text \<open>
  The definitions follow \<^verbatim>\<open>src/api/proxy.ts\<close>; \<^verbatim>\<open>src/api/proxy.js\<close> holds two
  JavaScript variants of the same functions. The proxy works on JavaScript strings. A
  string is modelled by the
  list of bytes of its UTF-8 encoding (\<^typ>\<open>string\<close>, one \<^typ>\<open>char\<close> per byte), which
  covers every well-formed Unicode text: the text of a fetched body as
  \<^verbatim>\<open>response.text()\<close> decodes it, header values and query parameters. Every pattern the
  code searches for is ASCII, and an ASCII byte never occurs inside a multi-byte UTF-8
  sequence, so searching, splitting and replacing on bytes finds exactly the occurrences
  that JavaScript finds on UTF-16 code units. A string holding a lone surrogate has no
  UTF-8 encoding and is outside the model.
\<close>

definition startsWith :: "string \<Rightarrow> string \<Rightarrow> bool" where
  "startsWith s p = (take (length p) s = p)"

definition endsWith :: "string \<Rightarrow> string \<Rightarrow> bool" where
  "endsWith s p = (length p \<le> length s \<and> drop (length s - length p) s = p)"

fun str_includes :: "string \<Rightarrow> string \<Rightarrow> bool" where
  "str_includes [] sub = (sub = [])"
| "str_includes (c # cs) sub = (startsWith (c # cs) sub \<or> str_includes cs sub)"

section \<open>Header Policy Resolver\<close>

type_synonym header_pair = "(string \<times> string) list"

text \<open>
  \<^verbatim>\<open>DOMAIN_HEADERS\<close> of \<^verbatim>\<open>proxy.ts\<close>, lines 11-19. \<^verbatim>\<open>Object.entries\<close> lists string
  keys in insertion order, so the object literal is an association list in table order.
\<close>

definition DOMAIN_HEADERS :: "(string \<times> header_pair) list" where
  "DOMAIN_HEADERS =
    [(''kwikie.ru'', [(''origin'', ''https://kwik.si''), (''referer'', ''https://kwik.si/'')]),
     (''krussdomi.com'',
        [(''origin'', ''https://hls.krussdomi.com''), (''referer'', ''https://hls.krussdomi.com/'')]),
     (''megacloud.blog'',
        [(''origin'', ''https://megacloud.blog''), (''referer'', ''https://megacloud.blog/'')]),
     (''megacloud.club'',
        [(''origin'', ''https://megacloud.club''), (''referer'', ''https://megacloud.club/'')]),
     (''vmeas.cloud'', [(''origin'', ''https://vidmoly.to''), (''referer'', ''https://vidmoly.to/'')]),
     (''embed.su'', [(''origin'', ''https://embed.su''), (''referer'', ''https://embed.su/'')]),
     (''akamaized.net'',
        [(''origin'', ''https://bl.krussdomi.com''), (''referer'', ''https://bl.krussdomi.com/'')])]"

text \<open>The \<^verbatim>\<open>for\<close> loop of \<^verbatim>\<open>getDomainHeaders\<close> with its early return.\<close>

fun getDomainHeaders_loop :: "string \<Rightarrow> (string \<times> header_pair) list \<Rightarrow> header_pair" where
  "getDomainHeaders_loop hostname [] = []"
| "getDomainHeaders_loop hostname ((domain, headers) # entries) =
     (if str_includes hostname domain then headers else getDomainHeaders_loop hostname entries)"

definition getDomainHeaders :: "string \<Rightarrow> header_pair" where
  "getDomainHeaders hostname = getDomainHeaders_loop hostname DOMAIN_HEADERS"

section \<open>Built-in string operations used by the rewriter\<close>

abbreviation LF :: char where "LF \<equiv> CHR 0x0A"
abbreviation CR :: char where "CR \<equiv> CHR 0x0D"
abbreviation DQ :: char where "DQ \<equiv> CHR 0x22"

text \<open>
  \<^verbatim>\<open>content.split(/\r?\n/)\<close>: the regular expression is tried at every position from the
  left, so a line feed ends a line, and a carriage return is swallowed with it only when
  it stands directly before the line feed. The empty string splits into one empty line.
\<close>

fun split_lines :: "string \<Rightarrow> string list" where
  "split_lines [] = [[]]"
| "split_lines (c # cs) =
     (if c = LF then [] # split_lines cs
      else if c = CR \<and> startsWith cs [LF] then [] # split_lines (tl cs)
      else (case split_lines cs of
              [] \<Rightarrow> [[c]]
            | l # ls \<Rightarrow> (c # l) # ls))"

text \<open>\<^verbatim>\<open>lines.join('\n')\<close>.\<close>

fun join_lines :: "string list \<Rightarrow> string" where
  "join_lines [] = []"
| "join_lines [l] = l"
| "join_lines (l # m # ls) = l @ LF # join_lines (m # ls)"

text \<open>
  \<^verbatim>\<open>String.prototype.trim\<close> removes the code points of ECMAScript's WhiteSpace and
  LineTerminator productions from both ends: U+0009 to U+000D, U+0020, U+00A0, U+1680,
  U+2000 to U+200A, U+2028, U+2029, U+202F, U+205F, U+3000 and U+FEFF. The table lists
  their UTF-8 encodings.
\<close>

definition whitespace :: "string list" where
  "whitespace =
    [[CHR 0x09], [CHR 0x0A], [CHR 0x0B], [CHR 0x0C], [CHR 0x0D], [CHR 0x20],
     [CHR 0xC2, CHR 0xA0], [CHR 0xE1, CHR 0x9A, CHR 0x80],
     [CHR 0xE2, CHR 0x80, CHR 0x80], [CHR 0xE2, CHR 0x80, CHR 0x81],
     [CHR 0xE2, CHR 0x80, CHR 0x82], [CHR 0xE2, CHR 0x80, CHR 0x83],
     [CHR 0xE2, CHR 0x80, CHR 0x84], [CHR 0xE2, CHR 0x80, CHR 0x85],
     [CHR 0xE2, CHR 0x80, CHR 0x86], [CHR 0xE2, CHR 0x80, CHR 0x87],
     [CHR 0xE2, CHR 0x80, CHR 0x88], [CHR 0xE2, CHR 0x80, CHR 0x89],
     [CHR 0xE2, CHR 0x80, CHR 0x8A], [CHR 0xE2, CHR 0x80, CHR 0xA8],
     [CHR 0xE2, CHR 0x80, CHR 0xA9], [CHR 0xE2, CHR 0x80, CHR 0xAF],
     [CHR 0xE2, CHR 0x81, CHR 0x9F], [CHR 0xE3, CHR 0x80, CHR 0x80],
     [CHR 0xEF, CHR 0xBB, CHR 0xBF]]"

function trimStart :: "string \<Rightarrow> string" where
  "trimStart s =
     (case find (startsWith s) whitespace of
        None \<Rightarrow> s
      | Some w \<Rightarrow> trimStart (drop (length w) s))"
  by pat_completeness auto
termination
proof (relation "measure length")
  show "wf (measure length)" by simp
next
  fix s w :: string
  assume found: "find (startsWith s) whitespace = Some w"
  from found obtain i where i: "i < length whitespace" "startsWith s (whitespace ! i)"
      "w = whitespace ! i"
    unfolding find_Some_iff by blast
  from i have mem: "w \<in> set whitespace" and pre: "startsWith s w" by simp_all
  have "[] \<notin> set whitespace" by (simp add: whitespace_def)
  with mem have "w \<noteq> []" by blast
  moreover from pre have "take (length w) s = w" by (simp only: startsWith_def)
  then have "length (take (length w) s) = length w" by simp
  then have "length w \<le> length s" unfolding length_take by linarith
  ultimately have "length s - length w < length s" by (cases w) simp_all
  then show "(drop (length w) s, s) \<in> measure length" by simp
qed

function trimEnd :: "string \<Rightarrow> string" where
  "trimEnd s =
     (case find (endsWith s) whitespace of
        None \<Rightarrow> s
      | Some w \<Rightarrow> trimEnd (take (length s - length w) s))"
  by pat_completeness auto
termination
proof (relation "measure length")
  show "wf (measure length)" by simp
next
  fix s w :: string
  assume found: "find (endsWith s) whitespace = Some w"
  from found obtain i where i: "i < length whitespace" "endsWith s (whitespace ! i)"
      "w = whitespace ! i"
    unfolding find_Some_iff by blast
  from i have mem: "w \<in> set whitespace" and suf: "endsWith s w" by simp_all
  have "[] \<notin> set whitespace" by (simp add: whitespace_def)
  with mem have "w \<noteq> []" by blast
  moreover from suf have "length w \<le> length s" by (simp only: endsWith_def)
  ultimately have "length s - length w < length s" by (cases w) simp_all
  then show "(take (length s - length w) s, s) \<in> measure length" by simp
qed

definition trim :: "string \<Rightarrow> string" where
  "trim s = trimEnd (trimStart s)"

text \<open>
  \<^verbatim>\<open>s.lastIndexOf(c)\<close> is the index of the last occurrence, or -1;
  \<^verbatim>\<open>s.substring(a, b)\<close> clamps both indices to the string and swaps them when
  \<^verbatim>\<open>a > b\<close>.
\<close>

definition lastIndexOf :: "string \<Rightarrow> char \<Rightarrow> int" where
  "lastIndexOf s c =
     (if c \<in> set s then int (length s) - 1 - int (length (takeWhile (\<lambda>x. x \<noteq> c) (rev s)))
      else - 1)"

definition substring :: "string \<Rightarrow> int \<Rightarrow> int \<Rightarrow> string" where
  "substring s a b =
     (let lo = nat (min a b); hi = nat (max a b) in take (hi - lo) (drop lo s))"

text \<open>
  \<^verbatim>\<open>encodeURIComponent\<close> keeps the unreserved characters
  \<^verbatim>\<open>A-Z a-z 0-9 - _ . ! ~ * ' ( )\<close> and writes every other byte of the UTF-8 encoding
  as \<^verbatim>\<open>%XX\<close> with upper-case hexadecimal digits.
\<close>

definition unreserved :: "char \<Rightarrow> bool" where
  "unreserved c =
     (c \<in> set (''ABCDEFGHIJKLMNOPQRSTUVWXYZabcdefghijklmnopqrstuvwxyz0123456789-_.!~*()''
               @ [CHR 0x27]))"

definition hexDigit :: "nat \<Rightarrow> char" where
  "hexDigit n = ''0123456789ABCDEF'' ! (n mod 16)"

definition percentEncode :: "char \<Rightarrow> string" where
  "percentEncode c =
     [CHR ''%'', hexDigit (of_char c div 16), hexDigit (of_char c mod 16)]"

definition encodeURIComponent :: "string \<Rightarrow> string" where
  "encodeURIComponent s =
     concat (map (\<lambda>c. if unreserved c then [c] else percentEncode c) s)"

text \<open>
  The hosting platform parses the query string of a follow-up request: in a value,
  \<^verbatim>\<open>+\<close> stands for a space and \<^verbatim>\<open>%XX\<close> for the byte with that hexadecimal code;
  a \<^verbatim>\<open>%\<close> that no two hexadecimal digits follow is kept as it is.
\<close>

definition hexValue :: "char \<Rightarrow> nat option" where
  "hexValue c =
     (let n = (of_char c :: nat) in
      if 48 \<le> n \<and> n \<le> 57 then Some (n - 48)
      else if 65 \<le> n \<and> n \<le> 70 then Some (n - 55)
      else if 97 \<le> n \<and> n \<le> 102 then Some (n - 87)
      else None)"

fun decodeQueryValue :: "string \<Rightarrow> string" where
  "decodeQueryValue [] = []"
| "decodeQueryValue (c # cs) =
     (if c = CHR ''+'' then CHR '' '' # decodeQueryValue cs
      else if c = CHR ''%'' then
        (case cs of
           h # l # rest \<Rightarrow>
             (case (hexValue h, hexValue l) of
                (Some a, Some b) \<Rightarrow> char_of (16 * a + b) # decodeQueryValue rest
              | _ \<Rightarrow> c # decodeQueryValue cs)
         | _ \<Rightarrow> c # decodeQueryValue cs)
      else c # decodeQueryValue cs)"

text \<open>
  \<^verbatim>\<open>line.replace(/URI="([^"]+)"/g, f)\<close>. \<^verbatim>\<open>match_URI\<close> tries the expression at
  the start of a string: after the five characters \<^verbatim>\<open>URI="\<close> the group takes the
  longest run without a double quote, which must be non-empty and followed by a double
  quote; the result is the group and the text after the match. The global replacement
  scans from the left, replaces a match by the callback's result and goes on behind it,
  and copies a character where no match starts.
\<close>

definition match_URI :: "string \<Rightarrow> (string \<times> string) option" where
  \<open>match_URI s =
     (if startsWith s ''URI="'' then
        (let r = drop 5 s;
             uri = takeWhile (\<lambda>c. c \<noteq> DQ) r;
             rest = dropWhile (\<lambda>c. c \<noteq> DQ) r
         in if uri \<noteq> [] \<and> rest \<noteq> [] then Some (uri, tl rest) else None)
      else None)\<close>

function replace_URI :: "(string \<Rightarrow> string) \<Rightarrow> string \<Rightarrow> string" where
  "replace_URI f [] = []"
| "replace_URI f (c # cs) =
     (case match_URI (c # cs) of
        None \<Rightarrow> c # replace_URI f cs
      | Some (uri, rest) \<Rightarrow> f uri @ replace_URI f rest)"
  by pat_completeness auto
termination
proof (relation "measure (\<lambda>(f, s). length s)")
  show "wf (measure (\<lambda>(f, s). length s))" by simp
next
  fix f :: "string \<Rightarrow> string" and c :: char and cs :: string
  show "((f, cs), (f, c # cs)) \<in> measure (\<lambda>(f, s). length s)" by simp
next
  fix f :: "string \<Rightarrow> string" and c :: char and cs uri rest :: string and x
  assume "match_URI (c # cs) = Some x" and "(uri, rest) = x"
  then have m: "match_URI (c # cs) = Some (uri, rest)" by simp
  then have "rest = tl (dropWhile (\<lambda>c. c \<noteq> DQ) (drop 5 (c # cs)))"
    by (auto simp: match_URI_def Let_def split: if_splits)
  moreover have "length (dropWhile (\<lambda>c. c \<noteq> DQ) (drop 5 (c # cs))) \<le> length (drop 5 (c # cs))"
    by (rule length_dropWhile_le)
  ultimately have "length rest \<le> length cs" by simp
  then show "((f, rest), (f, c # cs)) \<in> measure (\<lambda>(f, s). length s)" by simp
qed

section \<open>Playlist Rewriter\<close>

text \<open>
  \<^verbatim>\<open>new URL(input, base)\<close> is the URL parser of the runtime, not code of the
  repository. It is a parameter of the model: given the input and the optional base it
  returns the parsed URL, of which the code reads \<^verbatim>\<open>href\<close> and \<^verbatim>\<open>hostname\<close>, or
  the message of the \<^verbatim>\<open>TypeError\<close> it throws.
\<close>

record URL =
  href :: string
  hostname :: string

type_synonym URL_constructor = "string \<Rightarrow> string option \<Rightarrow> string + URL"

text \<open>
  The callback of the \<^verbatim>\<open>replace\<close> call (\<^verbatim>\<open>proxy.ts\<close>, lines 37-45).
  \<^verbatim>\<open>URI_abs\<close> is its variable \<^verbatim>\<open>abs\<close>: a value that starts with \<^verbatim>\<open>http\<close> is
  taken as it is, any other value is resolved against the base, and the value itself is
  used when the parser throws.
\<close>

definition URI_abs :: "URL_constructor \<Rightarrow> string \<Rightarrow> string \<Rightarrow> string" where
  "URI_abs new_URL base uri =
     (if startsWith uri ''http'' then uri
      else (case new_URL uri (Some base) of
              Inr u \<Rightarrow> href u
            | Inl err \<Rightarrow> uri))"

definition rewrite_URI :: "URL_constructor \<Rightarrow> string \<Rightarrow> string \<Rightarrow> string \<Rightarrow> string" where
  \<open>rewrite_URI new_URL baseUrl base uri =
     ''URI="'' @ baseUrl @ ''?url='' @ encodeURIComponent (URI_abs new_URL base uri) @ ''"''\<close>

text \<open>
  The \<^verbatim>\<open>try\<close> block of the segment branch (\<^verbatim>\<open>proxy.ts\<close>, lines 50-62) computes
  \<^verbatim>\<open>abs\<close> from the trimmed line; \<^verbatim>\<open>None\<close> stands for the parser throwing, which the
  \<^verbatim>\<open>catch\<close> turns into returning the line as it was.
\<close>

definition segment_abs :: "URL_constructor \<Rightarrow> string \<Rightarrow> string \<Rightarrow> string option" where
  "segment_abs new_URL base trimmed =
     (if startsWith trimmed ''http'' then Some trimmed
      else if startsWith trimmed ''//'' then Some (''https:'' @ trimmed)
      else (case new_URL trimmed (Some base) of
              Inr u \<Rightarrow> Some (href u)
            | Inl err \<Rightarrow> None))"

text \<open>The body of the \<^verbatim>\<open>lines.map\<close> callback (\<^verbatim>\<open>proxy.ts\<close>, lines 32-66).\<close>

definition process_line :: "URL_constructor \<Rightarrow> string \<Rightarrow> string \<Rightarrow> string \<Rightarrow> string" where
  \<open>process_line new_URL baseUrl base line =
     (let trimmed = trim line in
      if str_includes line ''URI="'' then replace_URI (rewrite_URI new_URL baseUrl base) line
      else if trimmed \<noteq> [] \<and> \<not> startsWith trimmed ''#'' \<and> \<not> startsWith trimmed baseUrl then
        (case segment_abs new_URL base trimmed of
           Some absolute \<Rightarrow> baseUrl @ ''?url='' @ encodeURIComponent absolute
         | None \<Rightarrow> line)
      else line)\<close>

definition base_path :: "string \<Rightarrow> string" where
  "base_path targetUrl = substring targetUrl 0 (lastIndexOf targetUrl (CHR ''/'') + 1)"

definition processM3U8 :: "URL_constructor \<Rightarrow> string \<Rightarrow> string \<Rightarrow> string \<Rightarrow> string" where
  "processM3U8 new_URL content baseUrl targetUrl =
     (let lines = split_lines content;
          base = base_path targetUrl
      in join_lines (map (process_line new_URL baseUrl base) lines))"

section \<open>Request Relay\<close>

text \<open>
  The request as the handler reads it: the method, the \<^verbatim>\<open>url\<close> query parameter and
  the \<^verbatim>\<open>host\<close>, \<^verbatim>\<open>range\<close> and \<^verbatim>\<open>user-agent\<close> headers, each absent or a string.
  A query that repeats the \<^verbatim>\<open>url\<close> parameter, which the platform hands over as an
  array, is outside the model.
\<close>

record request =
  req_method :: "string option"
  query_url :: "string option"
  header_host :: "string option"
  header_range :: "string option"
  header_user_agent :: "string option"

text \<open>
  The call of \<^verbatim>\<open>fetch\<close>: the URL and the \<^verbatim>\<open>method\<close> and \<^verbatim>\<open>headers\<close> options. The
  fixed 25 second timeout is part of what the network answers.
\<close>

record fetch_request =
  fetch_url :: string
  fetch_method :: string
  fetch_headers :: "(string \<times> string) list"

text \<open>
  What the handler reads of the upstream response: the status, \<^verbatim>\<open>headers.get\<close> (by
  lower-case name), and the body through \<^verbatim>\<open>text()\<close> or \<^verbatim>\<open>arrayBuffer()\<close>, each of
  which may reject with a message. \<^verbatim>\<open>fetch\<close> itself is a parameter: it answers a
  call with a response or rejects with a message.
\<close>

record upstream_response =
  up_status :: nat
  up_headers :: "string \<Rightarrow> string option"
  up_text :: "string + string"
  up_arrayBuffer :: "string + string"

type_synonym fetch_function = "fetch_request \<Rightarrow> string + upstream_response"

text \<open>
  The response object \<^verbatim>\<open>res\<close>: the status (200 until set), the headers set with
  \<^verbatim>\<open>setHeader\<close>, where a second call for a name replaces its value, and the body given
  to \<^verbatim>\<open>end\<close>, \<^verbatim>\<open>json\<close> or \<^verbatim>\<open>send\<close>. Headers that the platform's \<^verbatim>\<open>json\<close> and
  \<^verbatim>\<open>send\<close> helpers add on their own are not part of the model.
\<close>

datatype body = NoBody | Json "(string \<times> string) list" | Text string | Buffer string

record response =
  statusCode :: nat
  headers :: "(string \<times> string) list"
  body :: body

definition new_response :: response where
  "new_response = \<lparr>statusCode = 200, headers = [], body = NoBody\<rparr>"

fun set_entry :: "string \<Rightarrow> string \<Rightarrow> (string \<times> string) list \<Rightarrow> (string \<times> string) list" where
  "set_entry k v [] = [(k, v)]"
| "set_entry k v ((k', v') # es) =
     (if k' = k then (k, v) # es else (k', v') # set_entry k v es)"

definition setHeader :: "string \<Rightarrow> string \<Rightarrow> response \<Rightarrow> response" where
  "setHeader k v res = res\<lparr>headers := set_entry k v (headers res)\<rparr>"

definition status :: "nat \<Rightarrow> response \<Rightarrow> response" where
  "status n res = res\<lparr>statusCode := n\<rparr>"

definition send :: "body \<Rightarrow> response \<Rightarrow> response" where
  "send b res = res\<lparr>body := b\<rparr>"

definition getHeader :: "response \<Rightarrow> string \<Rightarrow> string option" where
  "getHeader res k = map_of (headers res) k"

definition CORS_HEADERS :: "(string \<times> string) list" where
  "CORS_HEADERS =
    [(''Access-Control-Allow-Origin'', ''*''),
     (''Access-Control-Allow-Methods'', ''GET, POST, OPTIONS''),
     (''Access-Control-Allow-Headers'', ''Content-Type, Range, Authorization''),
     (''Access-Control-Expose-Headers'', ''Content-Length, Content-Range'')]"

text \<open>\<^verbatim>\<open>Object.entries(CORS_HEADERS).forEach(([k, v]) => res.setHeader(k, v))\<close>.\<close>

definition set_CORS :: "response \<Rightarrow> response" where
  "set_CORS res = fold (\<lambda>(k, v). setHeader k v) CORS_HEADERS res"

text \<open>
  A string read in a condition or after \<^verbatim>\<open>||\<close> counts when it is present and not
  empty; an absent value printed by a template literal reads \<^verbatim>\<open>undefined\<close>.
\<close>

definition truthy :: "string option \<Rightarrow> bool" where
  "truthy v = (case v of None \<Rightarrow> False | Some s \<Rightarrow> s \<noteq> [])"

definition or_else :: "string option \<Rightarrow> string \<Rightarrow> string" where
  "or_else v d = (case v of None \<Rightarrow> d | Some s \<Rightarrow> if s = [] then d else s)"

definition template :: "string option \<Rightarrow> string" where
  "template v = (case v of None \<Rightarrow> ''undefined'' | Some s \<Rightarrow> s)"

text \<open>
  The request headers of the upstream call (\<^verbatim>\<open>proxy.ts\<close>, lines 97-107): the three
  fixed headers, the domain headers spread over them, then \<^verbatim>\<open>Range\<close> when the inbound
  request has one.
\<close>

definition upstream_headers :: "request \<Rightarrow> URL \<Rightarrow> (string \<times> string) list" where
  "upstream_headers req url =
     (let headers =
            fold (\<lambda>(k, v). set_entry k v) (getDomainHeaders (hostname url))
              [(''User-Agent'', ''Mozilla/5.0 (Windows NT 10.0; Win64; x64) AppleWebKit/537.36''),
               (''Accept'', ''*/*''),
               (''Accept-Language'', ''en-US,en;q=0.9'')]
      in case header_range req of
           None \<Rightarrow> headers
         | Some r \<Rightarrow> if r = [] then headers else set_entry ''Range'' r headers)"

definition upstream_request :: "request \<Rightarrow> string \<Rightarrow> URL \<Rightarrow> fetch_request" where
  "upstream_request req targetUrl url =
     \<lparr>fetch_url = targetUrl,
      fetch_method = or_else (req_method req) ''GET'',
      fetch_headers = upstream_headers req url\<rparr>"

definition isM3U8 :: "string \<Rightarrow> upstream_response \<Rightarrow> bool" where
  "isM3U8 targetUrl response =
     (endsWith targetUrl ''.m3u8'' \<or>
      (case up_headers response ''content-type'' of
         None \<Rightarrow> False
       | Some ct \<Rightarrow> str_includes ct ''mpegurl''))"

text \<open>\<^verbatim>\<open>if (value) res.setHeader(name, value)\<close>.\<close>

definition forward_header :: "string \<Rightarrow> string option \<Rightarrow> response \<Rightarrow> response" where
  "forward_header name v res =
     (case v of
        None \<Rightarrow> res
      | Some s \<Rightarrow> if s = [] then res else setHeader name s res)"

text \<open>
  The \<^verbatim>\<open>try\<close> block of the handler (\<^verbatim>\<open>proxy.ts\<close>, lines 93-148). Its result is the
  finished response, or the message of what was thrown together with the response object
  as the statements before the throw left it; beside it stands the list of \<^verbatim>\<open>fetch\<close>
  calls made.
\<close>

definition try_block ::
  "URL_constructor \<Rightarrow> fetch_function \<Rightarrow> request \<Rightarrow> string \<Rightarrow> response \<Rightarrow>
     ((string \<times> response) + response) \<times> fetch_request list" where
  "try_block new_URL fetch req targetUrl res =
     (case new_URL targetUrl None of
        Inl err \<Rightarrow> (Inl (err, res), [])
      | Inr url \<Rightarrow>
          (let call = upstream_request req targetUrl url in
           case fetch call of
             Inl err \<Rightarrow> (Inl (err, res), [call])
           | Inr response \<Rightarrow>
               if isM3U8 targetUrl response then
                 (case up_text response of
                    Inl err \<Rightarrow> (Inl (err, res), [call])
                  | Inr text \<Rightarrow>
                      (let baseUrl = ''https://'' @ template (header_host req) @ ''/api/proxy'';
                           processed = processM3U8 new_URL text baseUrl targetUrl;
                           res1 = setHeader ''Content-Type'' ''application/vnd.apple.mpegurl'' res;
                           res2 = set_CORS res1;
                           res3 = setHeader ''Cache-Control'' ''public, max-age=300'' res2
                       in (Inr (send (Text processed) (status 200 res3)), [call])))
               else
                 (let res1 = set_CORS res;
                      res2 = forward_header ''Content-Type'' (up_headers response ''content-type'') res1;
                      res3 = forward_header ''Content-Length'' (up_headers response ''content-length'') res2;
                      res4 = forward_header ''Content-Range'' (up_headers response ''content-range'') res3;
                      res5 = forward_header ''Accept-Ranges'' (up_headers response ''accept-ranges'') res4
                  in case up_arrayBuffer response of
                       Inl err \<Rightarrow> (Inl (err, res5), [call])
                     | Inr buffer \<Rightarrow>
                         (Inr (send (Buffer buffer) (status (up_status response) res5)), [call]))))"

text \<open>
  The handler of \<^verbatim>\<open>proxy.ts\<close>, lines 69-162: the preflight answer, the 400 answer
  when the \<^verbatim>\<open>url\<close> parameter is absent or empty, and the \<^verbatim>\<open>try\<close> block with its
  \<^verbatim>\<open>catch\<close>, which answers 500 on the response object the \<^verbatim>\<open>try\<close> block left.
\<close>

definition bad_request :: "request \<Rightarrow> response" where
  "bad_request req =
     send (Json [(''error'', ''Missing url parameter''),
                 (''usage'', ''Add ?url=https://example.com/video.m3u8''),
                 (''example'', ''https://'' @ template (header_host req)
                     @ ''/api/proxy?url=https://example.com/video.m3u8'')])
       (status 400 (set_CORS (setHeader ''Content-Type'' ''application/json'' new_response)))"

definition catch_block :: "string \<Rightarrow> string \<Rightarrow> response \<Rightarrow> response" where
  "catch_block message targetUrl res =
     send (Json [(''error'', ''Proxy request failed''),
                 (''message'', or_else (Some message) ''Unknown error''),
                 (''target'', targetUrl)])
       (status 500 (set_CORS (setHeader ''Content-Type'' ''application/json'' res)))"

definition handler ::
  "URL_constructor \<Rightarrow> fetch_function \<Rightarrow> request \<Rightarrow> response \<times> fetch_request list" where
  "handler new_URL fetch req =
     (if req_method req = Some ''OPTIONS'' then
        (send NoBody (set_CORS (status 204 new_response)), [])
      else
        (case query_url req of
           None \<Rightarrow> (bad_request req, [])
         | Some targetUrl \<Rightarrow>
             if targetUrl = [] then (bad_request req, [])
             else
               (case try_block new_URL fetch req targetUrl new_response of
                  (Inr res, calls) \<Rightarrow> (res, calls)
                | (Inl (message, res), calls) \<Rightarrow> (catch_block message targetUrl res, calls))))"

text \<open>
  The second handler in \<^verbatim>\<open>proxy.ts\<close> (lines 166-187), a minimal relay: it answers
  400 without a \<^verbatim>\<open>url\<close>, fetches with the caller's user agent, and sends the body
  text back with the upstream status; whatever is thrown becomes a 500 answer.
\<close>

definition minimal_handler :: "fetch_function \<Rightarrow> request \<Rightarrow> response \<times> fetch_request list" where
  "minimal_handler fetch req =
     (let required = send (Json [(''error'', ''URL parameter required'')]) (status 400 new_response);
          failed = send (Json [(''error'', ''Proxy request failed'')]) (status 500 new_response)
      in case query_url req of
           None \<Rightarrow> (required, [])
         | Some url \<Rightarrow>
             if url = [] then (required, [])
             else
               (let call = \<lparr>fetch_url = url, fetch_method = ''GET'',
                            fetch_headers =
                              [(''User-Agent'', or_else (header_user_agent req) ''Mozilla/5.0'')]\<rparr>
                in case fetch call of
                     Inl err \<Rightarrow> (failed, [call])
                   | Inr response \<Rightarrow>
                       (case up_text response of
                          Inl err \<Rightarrow> (failed, [call])
                        | Inr data \<Rightarrow>
                            (let res1 = setHeader ''Access-Control-Allow-Origin'' ''*'' new_response;
                                 res2 = setHeader ''Content-Type''
                                          (or_else (up_headers response ''content-type'') ''text/plain'')
                                          res1
                             in (send (Text data) (status (up_status response) res2), [call])))))"

section \<open>Instances of the runtime used in examples\<close>

text \<open>
  A small URL parser for the examples. On the inputs the examples give it, it agrees
  with the runtime's parser: an absolute \<^verbatim>\<open>https\<close> URL in normal form without port
  or credentials parses to itself, with the text between the scheme and the next slash as
  host name; a plain file name is joined to a base of that form that ends in a slash; a
  string with no scheme is rejected when there is no base or the base is no URL.
\<close>

definition sample_URL :: URL_constructor where
  "sample_URL input base =
     (if startsWith input ''https://'' then
        Inr \<lparr>href = input, hostname = takeWhile (\<lambda>c. c \<noteq> CHR ''/'') (drop 8 input)\<rparr>
      else
        (case base of
           None \<Rightarrow> Inl ''Invalid URL''
         | Some b \<Rightarrow>
             if startsWith b ''https://'' \<and> endsWith b ''/'' then
               Inr \<lparr>href = b @ input, hostname = takeWhile (\<lambda>c. c \<noteq> CHR ''/'') (drop 8 b)\<rparr>
             else Inl ''Invalid URL''))"

text \<open>An upstream that answers every call with the same response, and one that is down.\<close>

definition answering :: "upstream_response \<Rightarrow> fetch_function" where
  "answering response call = Inr response"

definition unreachable :: fetch_function where
  "unreachable call = Inl ''fetch failed''"

definition get_request :: "string option \<Rightarrow> string option \<Rightarrow> request" where
  "get_request url r =
     \<lparr>req_method = Some ''GET'', query_url = url, header_host = Some ''proxy.test'',
      header_range = r, header_user_agent = Some ''player/1.0''\<rparr>"

text \<open>Upstream responses for the examples.\<close>

definition plain_playlist :: upstream_response where
  "plain_playlist =
     \<lparr>up_status = 200,
      up_headers = map_of [(''content-type'', ''text/plain'')],
      up_text = Inr (''#EXTM3U'' @ [LF] @ ''seg1.ts''),
      up_arrayBuffer = Inr (''#EXTM3U'' @ [LF] @ ''seg1.ts'')\<rparr>"

definition partial_playlist :: upstream_response where
  "partial_playlist =
     \<lparr>up_status = 206,
      up_headers = map_of [(''content-type'', ''application/vnd.apple.mpegurl''),
                           (''content-range'', ''bytes 0-15/64'')],
      up_text = Inr (''#EXTM3U'' @ [LF] @ ''seg1.ts''),
      up_arrayBuffer = Inr (''#EXTM3U'' @ [LF] @ ''seg1.ts'')\<rparr>"

definition partial_segment :: upstream_response where
  "partial_segment =
     \<lparr>up_status = 206,
      up_headers = map_of [(''content-type'', ''video/mp2t''), (''content-length'', ''4''),
                           (''content-range'', ''bytes 0-3/64''), (''accept-ranges'', ''bytes'')],
      up_text = Inr ''G@AB'',
      up_arrayBuffer = Inr ''G@AB''\<rparr>"

section \<open>Notions of the specification\<close>

text \<open>
  The specification classifies by the path of the target URL. The path is what stands
  behind the authority, up to the query or the fragment, which begin at the first
  \<^verbatim>\<open>?\<close> or \<^verbatim>\<open>#\<close>.
\<close>

fun after_scheme :: "string \<Rightarrow> string" where
  "after_scheme (a # b # c # rest) =
     (if [a, b, c] = ''://'' then rest else after_scheme (b # c # rest))"
| "after_scheme rest = []"

definition URL_path :: "string \<Rightarrow> string" where
  "URL_path u =
     dropWhile (\<lambda>c. c \<noteq> CHR ''/'')
       (after_scheme (takeWhile (\<lambda>c. c \<noteq> CHR ''?'' \<and> c \<noteq> CHR ''#'') u))"

text \<open>
  The lines of the output are the pieces between line feeds: \<^verbatim>\<open>split_nl\<close> splits at
  every line feed and nowhere else.
\<close>

fun split_nl :: "string \<Rightarrow> string list" where
  "split_nl [] = [[]]"
| "split_nl (c # cs) =
     (if c = LF then [] # split_nl cs
      else (case split_nl cs of
              [] \<Rightarrow> [[c]]
            | l # ls \<Rightarrow> (c # l) # ls))"

text \<open>
  A string holds a double-quoted URI attribute when \<^verbatim>\<open>URI="\<close>, a non-empty value
  without a double quote and a closing double quote occur in it.
\<close>

definition has_URI_attribute :: "string \<Rightarrow> bool" where
  \<open>has_URI_attribute s =
     (\<exists>pre uri post. s = pre @ ''URI="'' @ uri @ DQ # post \<and> uri \<noteq> [] \<and> DQ \<notin> set uri)\<close>

text \<open>
  An absolute URL begins with a scheme and a colon; a scheme is a letter followed by
  letters, digits, \<^verbatim>\<open>+\<close>, \<^verbatim>\<open>-\<close> and \<^verbatim>\<open>.\<close> (RFC 3986).
\<close>

definition is_letter :: "char \<Rightarrow> bool" where
  "is_letter c =
     (let n = (of_char c :: nat) in (65 \<le> n \<and> n \<le> 90) \<or> (97 \<le> n \<and> n \<le> 122))"

definition scheme_char :: "char \<Rightarrow> bool" where
  "scheme_char c =
     (let n = (of_char c :: nat) in
      is_letter c \<or> (48 \<le> n \<and> n \<le> 57) \<or> c = CHR ''+'' \<or> c = CHR ''-'' \<or> c = CHR ''.'')"

definition is_absolute_URL :: "string \<Rightarrow> bool" where
  "is_absolute_URL s =
     (case s of
        [] \<Rightarrow> False
      | c # cs \<Rightarrow>
          is_letter c \<and>
          (case dropWhile scheme_char cs of [] \<Rightarrow> False | d # rest \<Rightarrow> d = CHR '':''))"

text \<open>The permissive CORS header set on a response.\<close>

definition has_CORS :: "response \<Rightarrow> bool" where
  "has_CORS res =
     (getHeader res ''Access-Control-Allow-Origin'' = Some ''*'' \<and>
      getHeader res ''Access-Control-Allow-Methods'' = Some ''GET, POST, OPTIONS'' \<and>
      getHeader res ''Access-Control-Allow-Headers'' = Some ''Content-Type, Range, Authorization'' \<and>
      getHeader res ''Access-Control-Expose-Headers'' = Some ''Content-Length, Content-Range'')"

section \<open>The parts of a line with URI attributes\<close>

text \<open>
  The scan of the global replacement cuts a line into the literal text before the first
  match and, for each match, the value of the attribute with the literal text that
  follows it up to the next match. The proofs about the replacement go through this
  decomposition.
\<close>

function URI_parts :: "string \<Rightarrow> string \<times> (string \<times> string) list" where
  "URI_parts [] = ([], [])"
| "URI_parts (c # cs) =
     (case match_URI (c # cs) of
        None \<Rightarrow> (case URI_parts cs of (s0, parts) \<Rightarrow> (c # s0, parts))
      | Some (uri, rest) \<Rightarrow> (case URI_parts rest of (s0, parts) \<Rightarrow> ([], (uri, s0) # parts)))"
  by pat_completeness auto
termination
proof (relation "measure length")
  show "wf (measure length)" by simp
next
  fix c :: char and cs :: string
  show "(cs, c # cs) \<in> measure length" by simp
next
  fix c :: char and cs uri rest :: string and x
  assume "match_URI (c # cs) = Some x" and "(uri, rest) = x"
  then have m: "match_URI (c # cs) = Some (uri, rest)" by simp
  then have "rest = tl (dropWhile (\<lambda>c. c \<noteq> DQ) (drop 5 (c # cs)))"
    by (auto simp: match_URI_def Let_def split: if_splits)
  moreover have "length (dropWhile (\<lambda>c. c \<noteq> DQ) (drop 5 (c # cs))) \<le> length (drop 5 (c # cs))"
    by (rule length_dropWhile_le)
  ultimately have "length rest \<le> length cs" by simp
  then show "(rest, c # cs) \<in> measure length" by simp
qed

section \<open>Properties of the Header Policy Resolver\<close>

lemma getDomainHeaders_loop_first:
  "i < length tab \<Longrightarrow> str_includes h (fst (tab ! i)) \<Longrightarrow>
   (\<forall>j<i. \<not> str_includes h (fst (tab ! j))) \<Longrightarrow>
   getDomainHeaders_loop h tab = snd (tab ! i)"
proof (induction tab arbitrary: i)
  case Nil
  then show ?case by simp
next
  case (Cons e tab)
  obtain d hs where e: "e = (d, hs)" by (cases e)
  show ?case
  proof (cases i)
    case 0
    with Cons.prems e show ?thesis by simp
  next
    case (Suc k)
    from Cons.prems(3) Suc have "\<not> str_includes h (fst ((e # tab) ! 0))" by blast
    then have nd: "\<not> str_includes h d" using e by simp
    have "\<forall>j<k. \<not> str_includes h (fst (tab ! j))"
    proof (intro allI impI)
      fix j assume "j < k"
      then have "Suc j < i" using Suc by simp
      with Cons.prems(3) have "\<not> str_includes h (fst ((e # tab) ! Suc j))" by blast
      then show "\<not> str_includes h (fst (tab ! j))" by simp
    qed
    moreover have "k < length tab" using Cons.prems(1) Suc by simp
    moreover have "str_includes h (fst (tab ! k))" using Cons.prems(2) Suc by simp
    ultimately have "getDomainHeaders_loop h tab = snd (tab ! k)" by (simp add: Cons.IH)
    with nd e Suc show ?thesis by simp
  qed
qed

lemma getDomainHeaders_loop_none:
  "(\<forall>i<length tab. \<not> str_includes h (fst (tab ! i))) \<Longrightarrow> getDomainHeaders_loop h tab = []"
proof (induction tab)
  case Nil
  then show ?case by simp
next
  case (Cons e tab)
  obtain d hs where e: "e = (d, hs)" by (cases e)
  from Cons.prems have "\<not> str_includes h (fst ((e # tab) ! 0))" by blast
  then have nd: "\<not> str_includes h d" using e by simp
  have "\<forall>i<length tab. \<not> str_includes h (fst (tab ! i))"
  proof (intro allI impI)
    fix i assume "i < length tab"
    then have "Suc i < length (e # tab)" by simp
    with Cons.prems have "\<not> str_includes h (fst ((e # tab) ! Suc i))" by blast
    then show "\<not> str_includes h (fst (tab ! i))" by simp
  qed
  then have "getDomainHeaders_loop h tab = []" by (rule Cons.IH)
  with nd e show ?case by simp
qed

lemma krussdomi_headers:
  "getDomainHeaders ''hls.krussdomi.com'' =
     [(''origin'', ''https://hls.krussdomi.com''), (''referer'', ''https://hls.krussdomi.com/'')]"
  by (simp add: getDomainHeaders_def DOMAIN_HEADERS_def startsWith_def)

lemma unknown_headers: "getDomainHeaders ''unknown.example.com'' = []"
  by (simp add: getDomainHeaders_def DOMAIN_HEADERS_def startsWith_def)

text \<open>
  Claim C7. For every host, \<^const>\<open>getDomainHeaders\<close> walks the fixed table in table
  order and returns the header pair of the first entry whose domain is a substring of the
  host, and the empty mapping when no entry matches; it is a total function, so it
  never fails. For \<^verbatim>\<open>hls.krussdomi.com\<close> it returns the headers of the
  \<^verbatim>\<open>krussdomi.com\<close> entry, for \<^verbatim>\<open>unknown.example.com\<close> the empty mapping.
\<close>

theorem getDomainHeaders_first_match:
  "(i < length DOMAIN_HEADERS \<and> str_includes host (fst (DOMAIN_HEADERS ! i)) \<and>
      (\<forall>j<i. \<not> str_includes host (fst (DOMAIN_HEADERS ! j)))
      \<longrightarrow> getDomainHeaders host = snd (DOMAIN_HEADERS ! i)) \<and>
   ((\<forall>k<length DOMAIN_HEADERS. \<not> str_includes host (fst (DOMAIN_HEADERS ! k)))
      \<longrightarrow> getDomainHeaders host = []) \<and>
   getDomainHeaders ''hls.krussdomi.com'' =
     [(''origin'', ''https://hls.krussdomi.com''), (''referer'', ''https://hls.krussdomi.com/'')] \<and>
   getDomainHeaders ''unknown.example.com'' = []"
  unfolding getDomainHeaders_def [of host]
  using getDomainHeaders_loop_first [of i DOMAIN_HEADERS host]
    getDomainHeaders_loop_none [of DOMAIN_HEADERS host]
    krussdomi_headers unknown_headers
  by blast

theorem getDomainHeaders_first_match_witness:
  "str_includes ''cdn.megacloud.club'' (fst (DOMAIN_HEADERS ! 3)) \<and>
   \<not> str_includes ''cdn.megacloud.club'' (fst (DOMAIN_HEADERS ! 0)) \<and>
   \<not> str_includes ''cdn.megacloud.club'' (fst (DOMAIN_HEADERS ! 1)) \<and>
   \<not> str_includes ''cdn.megacloud.club'' (fst (DOMAIN_HEADERS ! 2)) \<and>
   getDomainHeaders ''cdn.megacloud.club'' =
     [(''origin'', ''https://megacloud.club''), (''referer'', ''https://megacloud.club/'')] \<and>
   filter (\<lambda>e. str_includes ''example.org'' (fst e)) DOMAIN_HEADERS = [] \<and>
   getDomainHeaders ''example.org'' = []"
proof -
  have inc: "str_includes ''cdn.megacloud.club'' (fst (DOMAIN_HEADERS ! 3))"
    by (simp add: DOMAIN_HEADERS_def startsWith_def)
  have n0: "\<not> str_includes ''cdn.megacloud.club'' (fst (DOMAIN_HEADERS ! 0))"
    by (simp add: DOMAIN_HEADERS_def startsWith_def)
  have n1: "\<not> str_includes ''cdn.megacloud.club'' (fst (DOMAIN_HEADERS ! 1))"
    by (simp add: DOMAIN_HEADERS_def startsWith_def)
  have n2: "\<not> str_includes ''cdn.megacloud.club'' (fst (DOMAIN_HEADERS ! 2))"
    by (simp add: DOMAIN_HEADERS_def startsWith_def)
  have before: "\<forall>j<3. \<not> str_includes ''cdn.megacloud.club'' (fst (DOMAIN_HEADERS ! j))"
  proof (intro allI impI)
    fix j :: nat assume "j < 3"
    then consider "j = 0" | "j = 1" | "j = 2" by linarith
    then show "\<not> str_includes ''cdn.megacloud.club'' (fst (DOMAIN_HEADERS ! j))"
      using n0 n1 n2 by cases simp_all
  qed
  have len: "(3::nat) < length DOMAIN_HEADERS" by (simp add: DOMAIN_HEADERS_def)
  have res: "getDomainHeaders ''cdn.megacloud.club'' = snd (DOMAIN_HEADERS ! 3)"
    using getDomainHeaders_first_match [of 3 "''cdn.megacloud.club''"] len inc before by blast
  have val: "snd (DOMAIN_HEADERS ! 3) =
     [(''origin'', ''https://megacloud.club''), (''referer'', ''https://megacloud.club/'')]"
    by (simp add: DOMAIN_HEADERS_def)
  have none: "\<forall>k<length DOMAIN_HEADERS. \<not> str_includes ''example.org'' (fst (DOMAIN_HEADERS ! k))"
  proof (intro allI impI)
    fix k assume "k < length DOMAIN_HEADERS"
    then have "k < 7" by (simp add: DOMAIN_HEADERS_def)
    then consider "k = 0" | "k = 1" | "k = 2" | "k = 3" | "k = 4" | "k = 5" | "k = 6"
      by linarith
    then show "\<not> str_includes ''example.org'' (fst (DOMAIN_HEADERS ! k))"
      by cases (simp_all add: DOMAIN_HEADERS_def startsWith_def)
  qed
  have empty: "getDomainHeaders ''example.org'' = []"
    using getDomainHeaders_first_match [of 0 "''example.org''"] none by blast
  have nomatch: "filter (\<lambda>e. str_includes ''example.org'' (fst e)) DOMAIN_HEADERS = []"
    by (simp add: DOMAIN_HEADERS_def startsWith_def)
  from inc n0 n1 n2 res val nomatch empty show ?thesis by simp
qed

section \<open>Properties of the Playlist Rewriter\<close>

subsection \<open>Percent encoding\<close>

lemma hexDigit_cases:
  "hexDigit n \<in> set ''0123456789ABCDEF''"
proof -
  have "n mod 16 < length ''0123456789ABCDEF''" by simp
  then show ?thesis unfolding hexDigit_def by (rule nth_mem)
qed

lemma unreserved_hex_digits: "list_all unreserved ''0123456789ABCDEF''"
  by code_simp

lemma unreserved_hexDigit: "unreserved (hexDigit n)"
  using hexDigit_cases [of n] unreserved_hex_digits unfolding list_all_iff by blast

lemma hexValue_hexDigit_all:
  "list_all (\<lambda>n. hexValue (hexDigit n) = Some n) [0..<16]"
  by code_simp

lemma hexValue_hexDigit: "n < 16 \<Longrightarrow> hexValue (hexDigit n) = Some n"
proof -
  assume "n < 16"
  then have "n \<in> set [0..<16]" by simp
  with hexValue_hexDigit_all show ?thesis unfolding list_all_iff by blast
qed

lemma not_unreserved:
  "\<not> unreserved (CHR ''%'')" "\<not> unreserved (CHR ''+'')" "\<not> unreserved LF"
  "\<not> unreserved DQ" "\<not> unreserved (CHR ''&'')" "\<not> unreserved (CHR ''#'')"
  "\<not> unreserved (CHR ''='')"
  by code_simp+

lemma decode_percentEncode:
  "decodeQueryValue (percentEncode c @ rest) = c # decodeQueryValue rest"
proof -
  let ?n = "of_char c :: nat"
  have hi: "hexValue (hexDigit (?n div 16)) = Some (?n div 16)"
  proof (rule hexValue_hexDigit)
    have "?n < 256" by (rule nat_of_char_less_256)
    then show "?n div 16 < 16" by presburger
  qed
  have lo: "hexValue (hexDigit (?n mod 16)) = Some (?n mod 16)"
    by (intro hexValue_hexDigit) simp
  have "char_of (16 * (?n div 16) + ?n mod 16) = c" by simp
  with hi lo show ?thesis by (simp add: percentEncode_def)
qed

lemma decode_unreserved:
  "unreserved c \<Longrightarrow> decodeQueryValue (c # rest) = c # decodeQueryValue rest"
  using not_unreserved(1,2) by auto

lemma encodeURIComponent_Nil [simp]: "encodeURIComponent [] = []"
  by (simp add: encodeURIComponent_def)

lemma encodeURIComponent_Cons:
  "encodeURIComponent (c # s) =
     (if unreserved c then [c] else percentEncode c) @ encodeURIComponent s"
  by (simp add: encodeURIComponent_def)

lemma decode_encode: "decodeQueryValue (encodeURIComponent s) = s"
proof (induction s)
  case Nil
  show ?case by simp
next
  case (Cons c s)
  show ?case
  proof (cases "unreserved c")
    case True
    then show ?thesis
      using Cons.IH by (simp add: encodeURIComponent_Cons decode_unreserved del: decodeQueryValue.simps)
  next
    case False
    then show ?thesis
      using Cons.IH by (simp add: encodeURIComponent_Cons decode_percentEncode del: decodeQueryValue.simps)
  qed
qed

lemma encoded_chars:
  "x \<in> set (encodeURIComponent s) \<Longrightarrow> unreserved x \<or> x = CHR ''%''"
proof (induction s)
  case Nil
  then show ?case by simp
next
  case (Cons c s)
  then show ?case
    by (auto simp: encodeURIComponent_Cons percentEncode_def unreserved_hexDigit split: if_splits)
qed

lemma encoded_has_no:
  "LF \<notin> set (encodeURIComponent s)" "DQ \<notin> set (encodeURIComponent s)"
  "CHR ''&'' \<notin> set (encodeURIComponent s)" "CHR ''#'' \<notin> set (encodeURIComponent s)"
  "CHR ''+'' \<notin> set (encodeURIComponent s)" "CHR ''='' \<notin> set (encodeURIComponent s)"
  using encoded_chars [of _ s] not_unreserved by auto

subsection \<open>Lines\<close>

lemma split_lines_not_Nil: "split_lines s \<noteq> []"
  by (induction s rule: split_lines.induct) (auto split: list.splits)

lemma split_lines_no_LF: "l \<in> set (split_lines s) \<Longrightarrow> LF \<notin> set l"
proof (induction s arbitrary: l rule: split_lines.induct)
  case 1
  then show ?case by simp
next
  case (2 c cs)
  show ?case
  proof (cases "c = LF")
    case True
    with 2 show ?thesis by auto
  next
    case nl: False
    show ?thesis
    proof (cases "c = CR \<and> startsWith cs [LF]")
      case True
      with 2 nl show ?thesis by auto
    next
      case False
      obtain h t where ht: "split_lines cs = h # t"
        using split_lines_not_Nil [of cs] by (cases "split_lines cs") auto
      from False nl ht have eq: "split_lines (c # cs) = (c # h) # t" by auto
      from "2.IH"(3) [OF nl False] ht have ih: "\<And>l. l \<in> set (h # t) \<Longrightarrow> LF \<notin> set l" by simp
      from "2.prems" eq have "l = c # h \<or> l \<in> set t" by simp
      then show ?thesis using ih nl by auto
    qed
  qed
qed

lemma split_nl_line: "LF \<notin> set l \<Longrightarrow> split_nl l = [l]"
  by (induction l) auto

lemma split_nl_append: "LF \<notin> set l \<Longrightarrow> split_nl (l @ LF # rest) = l # split_nl rest"
  by (induction l) auto

lemma split_nl_join:
  "ls \<noteq> [] \<Longrightarrow> (\<forall>l\<in>set ls. LF \<notin> set l) \<Longrightarrow> split_nl (join_lines ls) = ls"
proof (induction ls rule: join_lines.induct)
  case 1
  then show ?case by simp
next
  case (2 l)
  then show ?case by (simp add: split_nl_line)
next
  case (3 l m ls)
  then show ?case by (simp add: split_nl_append)
qed

subsection \<open>What a rewritten line is made of\<close>

lemma match_URI_Some:
  assumes "match_URI s = Some (uri, rest)"
  shows \<open>startsWith s ''URI="''\<close>
    and "uri = takeWhile (\<lambda>c. c \<noteq> DQ) (drop 5 s)"
    and "uri \<noteq> []"
    and "dropWhile (\<lambda>c. c \<noteq> DQ) (drop 5 s) = DQ # rest"
proof -
  let ?d = "dropWhile (\<lambda>c. c \<noteq> DQ) (drop 5 s)"
  show sw: \<open>startsWith s ''URI="''\<close>
  proof (rule ccontr)
    assume \<open>\<not> startsWith s ''URI="''\<close>
    then have "match_URI s = None" unfolding match_URI_def by (simp only: if_False)
    with assms show False by simp
  qed
  have eq: "match_URI s =
      (if takeWhile (\<lambda>c. c \<noteq> DQ) (drop 5 s) \<noteq> [] \<and> ?d \<noteq> []
       then Some (takeWhile (\<lambda>c. c \<noteq> DQ) (drop 5 s), tl ?d) else None)"
    unfolding match_URI_def Let_def using sw by (simp only: if_True)
  show u: "uri = takeWhile (\<lambda>c. c \<noteq> DQ) (drop 5 s)"
    using assms eq by (simp split: if_splits)
  show "uri \<noteq> []" using assms eq u by (simp split: if_splits)
  have ne: "?d \<noteq> []" and r: "rest = tl ?d" using assms eq by (simp_all split: if_splits)
  from ne have "\<not> (hd ?d \<noteq> DQ)" by (rule hd_dropWhile)
  then have "hd ?d = DQ" by simp
  with ne r show "?d = DQ # rest" by (cases ?d) simp_all
qed

lemma match_URI_rest:
  assumes "match_URI s = Some (uri, rest)"
  shows "set rest \<subseteq> set s"
proof
  fix x assume "x \<in> set rest"
  then have "x \<in> set (dropWhile (\<lambda>c. c \<noteq> DQ) (drop 5 s))"
    using match_URI_Some(4) [OF assms] by simp
  then have "x \<in> set (drop 5 s)" by (rule set_dropWhileD)
  then show "x \<in> set s" by (rule in_set_dropD)
qed

lemma replace_URI_no_LF:
  "(\<And>u. LF \<notin> set (f u)) \<Longrightarrow> LF \<notin> set s \<Longrightarrow> LF \<notin> set (replace_URI f s)"
proof (induction f s rule: replace_URI.induct)
  case (1 f)
  then show ?case by simp
next
  case (2 f c cs)
  show ?case
  proof (cases "match_URI (c # cs)")
    case None
    have "LF \<notin> set (replace_URI f cs)" using "2.IH"(1) [OF None] "2.prems" by simp
    with None "2.prems"(2) show ?thesis by simp
  next
    case (Some m)
    obtain uri rest where m: "m = (uri, rest)" by (cases m)
    from Some m have "match_URI (c # cs) = Some (uri, rest)" by simp
    then have "set rest \<subseteq> set (c # cs)" by (rule match_URI_rest)
    with "2.prems"(2) have "LF \<notin> set rest" by blast
    with "2.IH"(2) [OF Some m [symmetric]] "2.prems"(1) have "LF \<notin> set (replace_URI f rest)" by simp
    with Some m "2.prems"(1) show ?thesis by simp
  qed
qed

lemma rewrite_URI_no_LF:
  "LF \<notin> set baseUrl \<Longrightarrow> LF \<notin> set (rewrite_URI new_URL baseUrl base uri)"
  by (simp add: rewrite_URI_def encoded_has_no)

lemma process_line_no_LF:
  assumes "LF \<notin> set baseUrl" and "LF \<notin> set line"
  shows "LF \<notin> set (process_line new_URL baseUrl base line)"
  using assms
  by (auto simp: process_line_def Let_def replace_URI_no_LF rewrite_URI_no_LF encoded_has_no
      split: option.splits)

lemma processM3U8_lines:
  assumes "LF \<notin> set baseUrl"
  shows "split_nl (processM3U8 new_URL content baseUrl targetUrl) =
     map (process_line new_URL baseUrl (base_path targetUrl)) (split_lines content)"
proof -
  let ?out = "map (process_line new_URL baseUrl (base_path targetUrl)) (split_lines content)"
  have "?out \<noteq> []" by (simp add: split_lines_not_Nil)
  moreover have "\<forall>l\<in>set ?out. LF \<notin> set l"
    using assms by (auto simp: process_line_no_LF split_lines_no_LF)
  ultimately have "split_nl (join_lines ?out) = ?out" by (rule split_nl_join)
  then show ?thesis by (simp add: processM3U8_def Let_def)
qed

text \<open>
  Claim C9. For every input string, and a proxy base URL without a line feed (it is
  built from the \<^verbatim>\<open>Host\<close> header), the lines of the output, separated by line feeds,
  are the images of the lines of the input, separated by \<^verbatim>\<open>\n\<close> or \<^verbatim>\<open>\r\n\<close>, in the
  same order: no line is dropped, added or moved, and the two counts agree.
\<close>

theorem line_structure_preserved:
  "LF \<notin> set baseUrl \<longrightarrow>
     split_nl (processM3U8 new_URL content baseUrl targetUrl) =
       map (process_line new_URL baseUrl (base_path targetUrl)) (split_lines content) \<and>
     length (split_nl (processM3U8 new_URL content baseUrl targetUrl)) =
       length (split_lines content)"
  by (simp add: processM3U8_lines)

text \<open>
  The theorem of claim C9 at a playlist of three lines, the first ended by \<^verbatim>\<open>\r\n\<close>.
\<close>

theorem line_structure_preserved_witness:
  "LF \<notin> set ''https://proxy.test/api/proxy'' \<and>
   split_lines (''#EXTM3U'' @ [CR, LF] @ ''seg1.ts'' @ [LF]) = [''#EXTM3U'', ''seg1.ts'', []] \<and>
   split_nl (processM3U8 sample_URL (''#EXTM3U'' @ [CR, LF] @ ''seg1.ts'' @ [LF])
               ''https://proxy.test/api/proxy'' ''https://a.com/path/index.m3u8'') =
     [''#EXTM3U'', ''https://proxy.test/api/proxy?url=https%3A%2F%2Fa.com%2Fpath%2Fseg1.ts'', []] \<and>
   length (split_nl (processM3U8 sample_URL (''#EXTM3U'' @ [CR, LF] @ ''seg1.ts'' @ [LF])
               ''https://proxy.test/api/proxy'' ''https://a.com/path/index.m3u8'')) = 3"
proof -
  let ?B = "''https://proxy.test/api/proxy''" and ?T = "''https://a.com/path/index.m3u8''"
  let ?P = "''#EXTM3U'' @ [CR, LF] @ ''seg1.ts'' @ [LF]"
  have b: "LF \<notin> set ?B" by simp
  have sl: "split_lines ?P = [''#EXTM3U'', ''seg1.ts'', []]" by code_simp
  have img: "map (process_line sample_URL ?B (base_path ?T)) [''#EXTM3U'', ''seg1.ts'', []] =
      [''#EXTM3U'', ''https://proxy.test/api/proxy?url=https%3A%2F%2Fa.com%2Fpath%2Fseg1.ts'', []]"
    by code_simp
  from b line_structure_preserved [of ?B sample_URL ?P ?T]
  have "split_nl (processM3U8 sample_URL ?P ?B ?T) =
       map (process_line sample_URL ?B (base_path ?T)) (split_lines ?P) \<and>
     length (split_nl (processM3U8 sample_URL ?P ?B ?T)) = length (split_lines ?P)"
    by (rule rev_mp)
  then have "split_nl (processM3U8 sample_URL ?P ?B ?T) =
      [''#EXTM3U'', ''https://proxy.test/api/proxy?url=https%3A%2F%2Fa.com%2Fpath%2Fseg1.ts'', []] \<and>
     length (split_nl (processM3U8 sample_URL ?P ?B ?T)) = 3"
    by (simp only: sl img) simp
  with b sl show ?thesis by (intro conjI) simp_all
qed

subsection \<open>The base path\<close>

lemma lastIndexOf_last:
  assumes "c \<notin> set f"
  shows "lastIndexOf (p @ c # f) c = int (length p)"
proof -
  have "takeWhile (\<lambda>x. x \<noteq> c) (rev f @ c # rev p) =
      rev f @ takeWhile (\<lambda>x. x \<noteq> c) (c # rev p)"
    by (rule takeWhile_append2) (use assms in auto)
  then have "takeWhile (\<lambda>x. x \<noteq> c) (rev (p @ c # f)) = rev f" by simp
  then show ?thesis by (simp add: lastIndexOf_def)
qed

lemma base_path_final_slash:
  assumes "CHR ''/'' \<notin> set f"
  shows "base_path (p @ CHR ''/'' # f) = p @ [CHR ''/'']"
proof -
  have li: "lastIndexOf (p @ CHR ''/'' # f) (CHR ''/'') = int (length p)"
    using assms by (rule lastIndexOf_last)
  have b: "nat (int (length p) + 1) = Suc (length p)" by linarith
  show ?thesis by (simp add: base_path_def substring_def Let_def li b)
qed

lemma base_path_no_slash: "CHR ''/'' \<notin> set t \<Longrightarrow> base_path t = []"
  by (simp add: base_path_def lastIndexOf_def substring_def Let_def)

subsection \<open>Segment lines\<close>

lemma process_line_segment:
  assumes \<open>\<not> str_includes line ''URI="''\<close> and "trim line \<noteq> []"
    and "\<not> startsWith (trim line) ''#''" and "\<not> startsWith (trim line) baseUrl"
  shows "process_line new_URL baseUrl base line =
     (case segment_abs new_URL base (trim line) of
        Some absolute \<Rightarrow> baseUrl @ ''?url='' @ encodeURIComponent absolute
      | None \<Rightarrow> line)"
  using assms by (simp add: process_line_def Let_def)

lemma processed_line:
  assumes "LF \<notin> set baseUrl" and "i < length (split_lines content)"
  shows "split_nl (processM3U8 new_URL content baseUrl targetUrl) ! i =
     process_line new_URL baseUrl (base_path targetUrl) (split_lines content ! i)"
  using processM3U8_lines [OF assms(1), of new_URL content targetUrl] assms(2) by simp

text \<open>
  Claim C10. For every segment line that the rewriter rewrites, the output line is the
  proxy base URL, \<^verbatim>\<open>?url=\<close> and the encoded absolute URL; decoding what follows
  \<^verbatim>\<open>?url=\<close> as a query value gives back exactly the absolute URL, and the encoded text
  holds no \<^verbatim>\<open>&\<close> or \<^verbatim>\<open>#\<close> that would end the value early. Decoding undoes
  \<^verbatim>\<open>encodeURIComponent\<close> on every string.
\<close>

theorem rewritten_segment_round_trip:
  \<open>(\<not> str_includes line ''URI="'' \<and> trim line \<noteq> [] \<and> \<not> startsWith (trim line) ''#'' \<and>
    \<not> startsWith (trim line) baseUrl \<and> segment_abs new_URL base (trim line) = Some absolute \<longrightarrow>
      process_line new_URL baseUrl base line = baseUrl @ ''?url='' @ encodeURIComponent absolute \<and>
      decodeQueryValue
        (drop (length (baseUrl @ ''?url='')) (process_line new_URL baseUrl base line)) = absolute \<and>
      CHR ''&'' \<notin> set (encodeURIComponent absolute) \<and>
      CHR ''#'' \<notin> set (encodeURIComponent absolute)) \<and>
   decodeQueryValue (encodeURIComponent s) = s\<close>
proof (intro conjI impI)
  assume a: \<open>\<not> str_includes line ''URI="'' \<and> trim line \<noteq> [] \<and> \<not> startsWith (trim line) ''#'' \<and>
    \<not> startsWith (trim line) baseUrl \<and> segment_abs new_URL base (trim line) = Some absolute\<close>
  then show out: "process_line new_URL baseUrl base line =
      baseUrl @ ''?url='' @ encodeURIComponent absolute"
    by (simp add: process_line_segment)
  have "drop (length (baseUrl @ ''?url='')) ((baseUrl @ ''?url='') @ encodeURIComponent absolute) =
      encodeURIComponent absolute"
    by simp
  then show "decodeQueryValue
        (drop (length (baseUrl @ ''?url='')) (process_line new_URL baseUrl base line)) = absolute"
    by (simp add: out decode_encode)
  show "CHR ''&'' \<notin> set (encodeURIComponent absolute)" by (rule encoded_has_no)
  show "CHR ''#'' \<notin> set (encodeURIComponent absolute)" by (rule encoded_has_no)
next
  show "decodeQueryValue (encodeURIComponent s) = s" by (rule decode_encode)
qed

text \<open>The theorem of claim C10 at the line \<^verbatim>\<open>seg1.ts\<close>.\<close>

theorem rewritten_segment_round_trip_witness:
  \<open>\<not> str_includes ''seg1.ts'' ''URI="'' \<and>
   segment_abs sample_URL ''https://a.com/path/'' (trim ''seg1.ts'') = Some ''https://a.com/path/seg1.ts'' \<and>
   process_line sample_URL ''https://proxy.test/api/proxy'' ''https://a.com/path/'' ''seg1.ts'' =
     ''https://proxy.test/api/proxy?url=https%3A%2F%2Fa.com%2Fpath%2Fseg1.ts'' \<and>
   decodeQueryValue
     (drop (length (''https://proxy.test/api/proxy'' @ ''?url=''))
        (process_line sample_URL ''https://proxy.test/api/proxy'' ''https://a.com/path/'' ''seg1.ts'')) =
     ''https://a.com/path/seg1.ts''\<close>
proof -
  let ?B = "''https://proxy.test/api/proxy''" and ?b = "''https://a.com/path/''"
  have p: \<open>\<not> str_includes ''seg1.ts'' ''URI="'' \<and> trim ''seg1.ts'' \<noteq> [] \<and>
      \<not> startsWith (trim ''seg1.ts'') ''#'' \<and> \<not> startsWith (trim ''seg1.ts'') ?B \<and>
      segment_abs sample_URL ?b (trim ''seg1.ts'') = Some ''https://a.com/path/seg1.ts''\<close>
    by code_simp
  have e: "?B @ ''?url='' @ encodeURIComponent ''https://a.com/path/seg1.ts'' =
      ''https://proxy.test/api/proxy?url=https%3A%2F%2Fa.com%2Fpath%2Fseg1.ts''"
    by code_simp
  from p rewritten_segment_round_trip
    [where line = "''seg1.ts''" and baseUrl = ?B and new_URL = sample_URL and base = ?b
       and absolute = "''https://a.com/path/seg1.ts''"]
  have c: "process_line sample_URL ?B ?b ''seg1.ts'' =
        ?B @ ''?url='' @ encodeURIComponent ''https://a.com/path/seg1.ts'' \<and>
      decodeQueryValue (drop (length (?B @ ''?url=''))
        (process_line sample_URL ?B ?b ''seg1.ts'')) = ''https://a.com/path/seg1.ts''"
    by blast
  from c have c1: "process_line sample_URL ?B ?b ''seg1.ts'' =
      ''https://proxy.test/api/proxy?url=https%3A%2F%2Fa.com%2Fpath%2Fseg1.ts''"
    by (simp only: e)
  from p c c1 show ?thesis by blast
qed

lemma seg1_facts:
  \<open>\<not> str_includes ''seg1.ts'' ''URI="''\<close> "trim ''seg1.ts'' = ''seg1.ts''"
  "split_lines ''seg1.ts'' = [''seg1.ts'']"
  "encodeURIComponent ''https://a.com/path/seg1.ts'' = ''https%3A%2F%2Fa.com%2Fpath%2Fseg1.ts''"
  "base_path ''https://a.com/path/index.m3u8'' = ''https://a.com/path/''"
  "\<not> startsWith ''seg1.ts'' ''#''" "\<not> startsWith ''seg1.ts'' ''http''"
  "\<not> startsWith ''seg1.ts'' ''//''"
  by code_simp+

lemma seg2_facts:
  \<open>\<not> str_includes ''//cdn.example.com/seg2.ts'' ''URI="''\<close>
  "trim ''//cdn.example.com/seg2.ts'' = ''//cdn.example.com/seg2.ts''"
  "split_lines ''//cdn.example.com/seg2.ts'' = [''//cdn.example.com/seg2.ts'']"
  "encodeURIComponent ''https://cdn.example.com/seg2.ts'' = ''https%3A%2F%2Fcdn.example.com%2Fseg2.ts''"
  "\<not> startsWith ''//cdn.example.com/seg2.ts'' ''#''"
  "\<not> startsWith ''//cdn.example.com/seg2.ts'' ''http''"
  "startsWith ''//cdn.example.com/seg2.ts'' ''//''"
  by code_simp+

lemma seg1_example:
  assumes "new_URL ''seg1.ts'' (Some ''https://a.com/path/'') = Inr u"
    and "href u = ''https://a.com/path/seg1.ts''" and "\<not> startsWith ''seg1.ts'' baseUrl"
  shows "processM3U8 new_URL ''seg1.ts'' baseUrl ''https://a.com/path/index.m3u8'' =
     baseUrl @ ''?url=https%3A%2F%2Fa.com%2Fpath%2Fseg1.ts''"
proof -
  have "segment_abs new_URL ''https://a.com/path/'' ''seg1.ts'' = Some ''https://a.com/path/seg1.ts''"
    unfolding segment_abs_def using assms(1,2) seg1_facts(7,8) by simp
  then have "process_line new_URL baseUrl ''https://a.com/path/'' ''seg1.ts'' =
      baseUrl @ ''?url='' @ encodeURIComponent ''https://a.com/path/seg1.ts''"
    using process_line_segment [of "''seg1.ts''" baseUrl new_URL "''https://a.com/path/''"]
      seg1_facts(1,2,6) assms(3)
    by simp
  then show ?thesis
    unfolding processM3U8_def Let_def seg1_facts(3,5) by (simp add: seg1_facts(4))
qed

lemma seg2_example:
  assumes "\<not> startsWith ''//cdn.example.com/seg2.ts'' baseUrl"
  shows "processM3U8 new_URL ''//cdn.example.com/seg2.ts'' baseUrl targetUrl =
     baseUrl @ ''?url=https%3A%2F%2Fcdn.example.com%2Fseg2.ts''"
proof -
  have "segment_abs new_URL (base_path targetUrl) ''//cdn.example.com/seg2.ts'' =
      Some (''https:'' @ ''//cdn.example.com/seg2.ts'')"
    unfolding segment_abs_def using seg2_facts(6,7) by simp
  then have "process_line new_URL baseUrl (base_path targetUrl) ''//cdn.example.com/seg2.ts'' =
      baseUrl @ ''?url='' @ encodeURIComponent ''https://cdn.example.com/seg2.ts''"
    using process_line_segment [of "''//cdn.example.com/seg2.ts''" baseUrl new_URL "base_path targetUrl"]
      seg2_facts(1,2,5) assms
    by simp
  then show ?thesis
    unfolding processM3U8_def Let_def seg2_facts(3) by (simp add: seg2_facts(4))
qed

text \<open>
  Claim C2, as the code has it. Take a line of a playlist that holds no \<^verbatim>\<open>URI="\<close> and
  whose trimmed content is not empty and starts neither with \<^verbatim>\<open>#\<close> nor with the proxy
  base URL (a base URL without a line feed). The output line at the same position is the
  proxy base URL, \<^verbatim>\<open>?url=\<close> and the encoded absolute URL, which is the trimmed content
  itself when that starts with \<^verbatim>\<open>http\<close>, \<^verbatim>\<open>https:\<close> before the trimmed content
  when that starts with \<^verbatim>\<open>//\<close>, and otherwise what the URL parser resolves it to
  against the base path; when the parser throws, the output line is the input line. The
  base path is the target URL up to and including its last slash. The two examples of
  the specification follow.
\<close>

theorem segment_line_rewrite:
  \<open>(LF \<notin> set baseUrl \<and> i < length (split_lines content) \<and> line = split_lines content ! i \<and>
    \<not> str_includes line ''URI="'' \<and> trim line \<noteq> [] \<and> \<not> startsWith (trim line) ''#'' \<and>
    \<not> startsWith (trim line) baseUrl \<longrightarrow>
      split_nl (processM3U8 new_URL content baseUrl targetUrl) ! i =
        (if startsWith (trim line) ''http'' then
           baseUrl @ ''?url='' @ encodeURIComponent (trim line)
         else if startsWith (trim line) ''//'' then
           baseUrl @ ''?url='' @ encodeURIComponent (''https:'' @ trim line)
         else (case new_URL (trim line) (Some (base_path targetUrl)) of
                 Inr u \<Rightarrow> baseUrl @ ''?url='' @ encodeURIComponent (href u)
               | Inl err \<Rightarrow> line))) \<and>
   (CHR ''/'' \<notin> set filename \<longrightarrow>
      base_path (directory @ CHR ''/'' # filename) = directory @ [CHR ''/'']) \<and>
   (new_URL ''seg1.ts'' (Some ''https://a.com/path/'') = Inr u1 \<and>
    href u1 = ''https://a.com/path/seg1.ts'' \<and> \<not> startsWith ''seg1.ts'' baseUrl \<longrightarrow>
      processM3U8 new_URL ''seg1.ts'' baseUrl ''https://a.com/path/index.m3u8'' =
        baseUrl @ ''?url=https%3A%2F%2Fa.com%2Fpath%2Fseg1.ts'') \<and>
   (\<not> startsWith ''//cdn.example.com/seg2.ts'' baseUrl \<longrightarrow>
      processM3U8 new_URL ''//cdn.example.com/seg2.ts'' baseUrl targetUrl =
        baseUrl @ ''?url=https%3A%2F%2Fcdn.example.com%2Fseg2.ts'')\<close>
proof (intro conjI impI)
  assume a: \<open>LF \<notin> set baseUrl \<and> i < length (split_lines content) \<and>
    line = split_lines content ! i \<and>
    \<not> str_includes line ''URI="'' \<and> trim line \<noteq> [] \<and> \<not> startsWith (trim line) ''#'' \<and>
    \<not> startsWith (trim line) baseUrl\<close>
  then have "split_nl (processM3U8 new_URL content baseUrl targetUrl) ! i =
      process_line new_URL baseUrl (base_path targetUrl) line"
    by (simp add: processed_line)
  also have "\<dots> = (case segment_abs new_URL (base_path targetUrl) (trim line) of
        Some absolute \<Rightarrow> baseUrl @ ''?url='' @ encodeURIComponent absolute
      | None \<Rightarrow> line)"
    using a by (intro process_line_segment) blast+
  also have "\<dots> = (if startsWith (trim line) ''http'' then
           baseUrl @ ''?url='' @ encodeURIComponent (trim line)
         else if startsWith (trim line) ''//'' then
           baseUrl @ ''?url='' @ encodeURIComponent (''https:'' @ trim line)
         else (case new_URL (trim line) (Some (base_path targetUrl)) of
                 Inr u \<Rightarrow> baseUrl @ ''?url='' @ encodeURIComponent (href u)
               | Inl err \<Rightarrow> line))"
    by (simp add: segment_abs_def split: sum.splits)
  finally show "split_nl (processM3U8 new_URL content baseUrl targetUrl) ! i =
        (if startsWith (trim line) ''http'' then
           baseUrl @ ''?url='' @ encodeURIComponent (trim line)
         else if startsWith (trim line) ''//'' then
           baseUrl @ ''?url='' @ encodeURIComponent (''https:'' @ trim line)
         else (case new_URL (trim line) (Some (base_path targetUrl)) of
                 Inr u \<Rightarrow> baseUrl @ ''?url='' @ encodeURIComponent (href u)
               | Inl err \<Rightarrow> line))" .
next
  assume "CHR ''/'' \<notin> set filename"
  then show "base_path (directory @ CHR ''/'' # filename) = directory @ [CHR ''/'']"
    by (rule base_path_final_slash)
next
  assume "new_URL ''seg1.ts'' (Some ''https://a.com/path/'') = Inr u1 \<and>
    href u1 = ''https://a.com/path/seg1.ts'' \<and> \<not> startsWith ''seg1.ts'' baseUrl"
  then show "processM3U8 new_URL ''seg1.ts'' baseUrl ''https://a.com/path/index.m3u8'' =
        baseUrl @ ''?url=https%3A%2F%2Fa.com%2Fpath%2Fseg1.ts''"
    by (simp add: seg1_example)
next
  assume "\<not> startsWith ''//cdn.example.com/seg2.ts'' baseUrl"
  then show "processM3U8 new_URL ''//cdn.example.com/seg2.ts'' baseUrl targetUrl =
        baseUrl @ ''?url=https%3A%2F%2Fcdn.example.com%2Fseg2.ts''"
    by (rule seg2_example)
qed

text \<open>
  The theorem of claim C2 at the second line of a two-line playlist, and at its examples.
\<close>

theorem segment_line_rewrite_witness:
  "split_lines (''#EXTM3U'' @ [LF] @ ''  seg1.ts '') ! 1 = ''  seg1.ts '' \<and>
   trim ''  seg1.ts '' = ''seg1.ts'' \<and>
   split_nl (processM3U8 sample_URL (''#EXTM3U'' @ [LF] @ ''  seg1.ts '')
               ''https://proxy.test/api/proxy'' ''https://a.com/path/index.m3u8'') ! 1 =
     ''https://proxy.test/api/proxy?url=https%3A%2F%2Fa.com%2Fpath%2Fseg1.ts'' \<and>
   base_path (''https://a.com/path'' @ CHR ''/'' # ''index.m3u8'') = ''https://a.com/path'' @ [CHR ''/''] \<and>
   processM3U8 sample_URL ''seg1.ts'' ''https://proxy.test/api/proxy'' ''https://a.com/path/index.m3u8'' =
     ''https://proxy.test/api/proxy'' @ ''?url=https%3A%2F%2Fa.com%2Fpath%2Fseg1.ts'' \<and>
   processM3U8 sample_URL ''//cdn.example.com/seg2.ts'' ''https://proxy.test/api/proxy''
       ''https://a.com/path/index.m3u8'' =
     ''https://proxy.test/api/proxy'' @ ''?url=https%3A%2F%2Fcdn.example.com%2Fseg2.ts''"
proof -
  let ?B = "''https://proxy.test/api/proxy''" and ?T = "''https://a.com/path/index.m3u8''"
  let ?P = "''#EXTM3U'' @ [LF] @ ''  seg1.ts ''"
  let ?u = "\<lparr>href = ''https://a.com/path/seg1.ts'', hostname = ''a.com''\<rparr>"
  have p1: \<open>LF \<notin> set ?B \<and> 1 < length (split_lines ?P) \<and> ''  seg1.ts '' = split_lines ?P ! 1 \<and>
      \<not> str_includes ''  seg1.ts '' ''URI="'' \<and> trim ''  seg1.ts '' \<noteq> [] \<and>
      \<not> startsWith (trim ''  seg1.ts '') ''#'' \<and> \<not> startsWith (trim ''  seg1.ts '') ?B\<close>
    by code_simp
  have p2: "CHR ''/'' \<notin> set ''index.m3u8''" by simp
  have p3: "sample_URL ''seg1.ts'' (Some ''https://a.com/path/'') = Inr ?u \<and>
      href ?u = ''https://a.com/path/seg1.ts'' \<and> \<not> startsWith ''seg1.ts'' ?B"
    by code_simp
  have p4: "\<not> startsWith ''//cdn.example.com/seg2.ts'' ?B" by code_simp
  have t: "trim ''  seg1.ts '' = ''seg1.ts''" by code_simp
  have v: "(if startsWith (trim ''  seg1.ts '') ''http'' then
           ?B @ ''?url='' @ encodeURIComponent (trim ''  seg1.ts '')
         else if startsWith (trim ''  seg1.ts '') ''//'' then
           ?B @ ''?url='' @ encodeURIComponent (''https:'' @ trim ''  seg1.ts '')
         else (case sample_URL (trim ''  seg1.ts '') (Some (base_path ?T)) of
                 Inr u \<Rightarrow> ?B @ ''?url='' @ encodeURIComponent (href u)
               | Inl err \<Rightarrow> ''  seg1.ts '')) =
      ''https://proxy.test/api/proxy?url=https%3A%2F%2Fa.com%2Fpath%2Fseg1.ts''"
    by code_simp
  note th = segment_line_rewrite
    [where baseUrl = ?B and i = 1 and content = ?P and line = "''  seg1.ts ''"
       and new_URL = sample_URL and targetUrl = ?T and filename = "''index.m3u8''"
       and directory = "''https://a.com/path''" and ?u1.0 = ?u]
  from p1 th have c1: "split_nl (processM3U8 sample_URL ?P ?B ?T) ! 1 =
      (if startsWith (trim ''  seg1.ts '') ''http'' then
           ?B @ ''?url='' @ encodeURIComponent (trim ''  seg1.ts '')
         else if startsWith (trim ''  seg1.ts '') ''//'' then
           ?B @ ''?url='' @ encodeURIComponent (''https:'' @ trim ''  seg1.ts '')
         else (case sample_URL (trim ''  seg1.ts '') (Some (base_path ?T)) of
                 Inr u \<Rightarrow> ?B @ ''?url='' @ encodeURIComponent (href u)
               | Inl err \<Rightarrow> ''  seg1.ts ''))"
    by blast
  from p2 th have c2: "base_path (''https://a.com/path'' @ CHR ''/'' # ''index.m3u8'') =
      ''https://a.com/path'' @ [CHR ''/'']"
    by blast
  from p3 th have c3: "processM3U8 sample_URL ''seg1.ts'' ?B ?T =
      ?B @ ''?url=https%3A%2F%2Fa.com%2Fpath%2Fseg1.ts''"
    by blast
  from p4 th have c4: "processM3U8 sample_URL ''//cdn.example.com/seg2.ts'' ?B ?T =
      ?B @ ''?url=https%3A%2F%2Fcdn.example.com%2Fseg2.ts''"
    by blast
  from c1 have c1': "split_nl (processM3U8 sample_URL ?P ?B ?T) ! 1 =
      ''https://proxy.test/api/proxy?url=https%3A%2F%2Fa.com%2Fpath%2Fseg1.ts''"
    by (simp only: v)
  from p1 have l: "split_lines ?P ! 1 = ''  seg1.ts ''" by simp
  from l t c1' c2 c3 c4 show ?thesis by blast
qed

text \<open>
  Claim C2 as stated covers every line whose trimmed content is not empty and starts
  neither with \<^verbatim>\<open>#\<close> nor with the proxy base URL, and resolves every form that is not
  an absolute or scheme-relative URL. A line holding \<^verbatim>\<open>URI="\<close> takes the attribute
  branch and is not replaced as a whole; the relative name \<^verbatim>\<open>httpseg.ts\<close> starts with
  \<^verbatim>\<open>http\<close> and is encoded as it stands, unresolved.
\<close>

theorem segment_line_with_URI_or_http_prefix:
  \<open>trim ''seg1.ts?k=URI="a"'' = ''seg1.ts?k=URI="a"'' \<and>
   \<not> startsWith ''seg1.ts?k=URI="a"'' ''#'' \<and>
   \<not> startsWith ''seg1.ts?k=URI="a"'' ''https://proxy.test/api/proxy'' \<and>
   process_line sample_URL ''https://proxy.test/api/proxy'' ''https://a.com/path/''
       ''seg1.ts?k=URI="a"'' =
     ''seg1.ts?k=URI="https://proxy.test/api/proxy?url=https%3A%2F%2Fa.com%2Fpath%2Fa"'' \<and>
   \<not> is_absolute_URL ''httpseg.ts'' \<and> \<not> startsWith ''httpseg.ts'' ''//'' \<and>
   sample_URL ''httpseg.ts'' (Some ''https://a.com/path/'') =
     Inr \<lparr>href = ''https://a.com/path/httpseg.ts'', hostname = ''a.com''\<rparr> \<and>
   process_line sample_URL ''https://proxy.test/api/proxy'' ''https://a.com/path/'' ''httpseg.ts'' =
     ''https://proxy.test/api/proxy?url=httpseg.ts''\<close>
  by code_simp

subsection \<open>URI attributes\<close>

lemma match_URI_attribute:
  assumes "uri \<noteq> []" and "DQ \<notin> set uri"
  shows \<open>match_URI (''URI="'' @ uri @ DQ # post) = Some (uri, post)\<close>
proof -
  have tw: "takeWhile (\<lambda>c. c \<noteq> DQ) (uri @ DQ # post) = uri @ takeWhile (\<lambda>c. c \<noteq> DQ) (DQ # post)"
    by (rule takeWhile_append2) (use assms(2) in auto)
  have dw: "dropWhile (\<lambda>c. c \<noteq> DQ) (uri @ DQ # post) = dropWhile (\<lambda>c. c \<noteq> DQ) (DQ # post)"
    by (rule dropWhile_append2) (use assms(2) in auto)
  show ?thesis using assms(1) tw dw by (simp add: match_URI_def startsWith_def Let_def)
qed

lemma match_URI_split:
  assumes "match_URI s = Some (uri, rest)"
  shows \<open>s = ''URI="'' @ uri @ DQ # rest\<close>
proof -
  have \<open>take (length ''URI="'') s = ''URI="''\<close>
    using match_URI_Some(1) [OF assms] by (simp only: startsWith_def)
  moreover have \<open>length ''URI="'' = 5\<close> by simp
  ultimately have t: \<open>take 5 s = ''URI="''\<close> by (simp only:)
  have "drop 5 s = takeWhile (\<lambda>c. c \<noteq> DQ) (drop 5 s) @ dropWhile (\<lambda>c. c \<noteq> DQ) (drop 5 s)"
    by (simp only: takeWhile_dropWhile_id)
  then have d: "drop 5 s = uri @ DQ # rest"
    by (simp only: match_URI_Some(2) [OF assms, symmetric] match_URI_Some(4) [OF assms])
  have "s = take 5 s @ drop 5 s" by (simp only: append_take_drop_id)
  then show ?thesis by (simp only: t d)
qed

lemma URI_parts_source:
  \<open>s = fst (URI_parts s) @
       concat (map (\<lambda>(uri, t). ''URI="'' @ uri @ ''"'' @ t) (snd (URI_parts s)))\<close>
proof (induction s rule: URI_parts.induct)
  case 1
  show ?case by simp
next
  case (2 c cs)
  show ?case
  proof (cases "match_URI (c # cs)")
    case None
    with "2.IH"(1) [OF None] show ?thesis by (simp add: case_prod_unfold)
  next
    case (Some m)
    obtain uri rest where m: "m = (uri, rest)" by (cases m)
    from Some m have mt: "match_URI (c # cs) = Some (uri, rest)" by simp
    have split: \<open>c # cs = ''URI="'' @ uri @ DQ # rest\<close> by (rule match_URI_split [OF mt])
    have ih: \<open>rest = fst (URI_parts rest) @
       concat (map (\<lambda>(uri, t). ''URI="'' @ uri @ ''"'' @ t) (snd (URI_parts rest)))\<close>
      by (rule "2.IH"(2) [OF Some m [symmetric]])
    have \<open>fst (URI_parts (c # cs)) @
       concat (map (\<lambda>(uri, t). ''URI="'' @ uri @ ''"'' @ t) (snd (URI_parts (c # cs)))) =
       ''URI="'' @ uri @ DQ # (fst (URI_parts rest) @
       concat (map (\<lambda>(uri, t). ''URI="'' @ uri @ ''"'' @ t) (snd (URI_parts rest))))\<close>
      using mt by (simp add: case_prod_unfold)
    also have \<open>\<dots> = ''URI="'' @ uri @ DQ # rest\<close> using ih by simp
    finally show ?thesis using split by simp
  qed
qed

lemma URI_parts_replace:
  "replace_URI f s = fst (URI_parts s) @ concat (map (\<lambda>(uri, t). f uri @ t) (snd (URI_parts s)))"
proof (induction s rule: URI_parts.induct)
  case 1
  show ?case by simp
next
  case (2 c cs)
  show ?case
  proof (cases "match_URI (c # cs)")
    case None
    with "2.IH"(1) [OF None] show ?thesis by (simp add: case_prod_unfold)
  next
    case (Some m)
    obtain uri rest where m: "m = (uri, rest)" by (cases m)
    from Some m have mt: "match_URI (c # cs) = Some (uri, rest)" by simp
    have ih: "replace_URI f rest =
        fst (URI_parts rest) @ concat (map (\<lambda>(uri, t). f uri @ t) (snd (URI_parts rest)))"
      by (rule "2.IH"(2) [OF Some m [symmetric]])
    show ?thesis using mt ih by (simp add: case_prod_unfold)
  qed
qed

lemma URI_parts_no_match:
  "i < length (fst (URI_parts s)) \<Longrightarrow> match_URI (drop i s) = None"
proof (induction s arbitrary: i rule: URI_parts.induct)
  case 1
  then show ?case by simp
next
  case (2 c cs)
  show ?case
  proof (cases "match_URI (c # cs)")
    case None
    show ?thesis
    proof (cases i)
      case 0
      with None show ?thesis by simp
    next
      case (Suc j)
      with "2.prems" None have "j < length (fst (URI_parts cs))"
        by (simp add: case_prod_unfold)
      then have "match_URI (drop j cs) = None" by (rule "2.IH"(1) [OF None])
      with Suc show ?thesis by simp
    qed
  next
    case (Some m)
    obtain uri rest where m: "m = (uri, rest)" by (cases m)
    with Some "2.prems" show ?thesis by (simp add: case_prod_unfold)
  qed
qed

lemma URI_parts_literal: "\<not> has_URI_attribute (fst (URI_parts s))"
proof
  assume "has_URI_attribute (fst (URI_parts s))"
  then obtain pre uri post where
    lit: \<open>fst (URI_parts s) = pre @ ''URI="'' @ uri @ DQ # post\<close>
    and u: "uri \<noteq> []" "DQ \<notin> set uri"
    unfolding has_URI_attribute_def by blast
  let ?tail = \<open>concat (map (\<lambda>(uri, t). ''URI="'' @ uri @ ''"'' @ t) (snd (URI_parts s)))\<close>
  let ?X = \<open>''URI="'' @ uri @ DQ # (post @ ?tail)\<close>
  have eq: "s = pre @ ?X"
    using URI_parts_source [of s] lit by simp
  have "drop (length pre) (pre @ ?X) = ?X" by simp
  then have "drop (length pre) s = ?X" by (simp only: eq [symmetric])
  then have "match_URI (drop (length pre) s) = Some (uri, post @ ?tail)"
    using match_URI_attribute [OF u] by simp
  moreover have "length pre < length (fst (URI_parts s))" using lit by simp
  then have "match_URI (drop (length pre) s) = None" by (rule URI_parts_no_match)
  ultimately show False by simp
qed

lemma URI_parts_attributes:
  "(uri, t) \<in> set (snd (URI_parts s)) \<Longrightarrow>
   uri \<noteq> [] \<and> DQ \<notin> set uri \<and> \<not> has_URI_attribute t"
proof (induction s rule: URI_parts.induct)
  case 1
  then show ?case by simp
next
  case (2 c cs)
  show ?case
  proof (cases "match_URI (c # cs)")
    case None
    with "2.prems" have "(uri, t) \<in> set (snd (URI_parts cs))"
      by (simp add: case_prod_unfold)
    then show ?thesis by (rule "2.IH"(1) [OF None])
  next
    case (Some m)
    obtain u rest where m: "m = (u, rest)" by (cases m)
    from Some m have mt: "match_URI (c # cs) = Some (u, rest)" by simp
    from "2.prems" mt have "(uri, t) = (u, fst (URI_parts rest)) \<or>
        (uri, t) \<in> set (snd (URI_parts rest))"
      by (simp add: case_prod_unfold)
    then show ?thesis
    proof
      assume e: "(uri, t) = (u, fst (URI_parts rest))"
      have "u \<noteq> []" by (rule match_URI_Some(3) [OF mt])
      moreover have "DQ \<notin> set u"
      proof -
        have tw: "u = takeWhile (\<lambda>c. c \<noteq> DQ) (drop 5 (c # cs))"
          by (rule match_URI_Some(2) [OF mt])
        show ?thesis
        proof
          assume "DQ \<in> set u"
          then have "DQ \<in> set (takeWhile (\<lambda>c. c \<noteq> DQ) (drop 5 (c # cs)))"
            by (simp only: tw [symmetric])
          then have "DQ \<noteq> DQ" by (rule set_takeWhileD [THEN conjunct2])
          then show False by simp
        qed
      qed
      moreover have "\<not> has_URI_attribute (fst (URI_parts rest))" by (rule URI_parts_literal)
      ultimately show ?thesis using e by simp
    next
      assume "(uri, t) \<in> set (snd (URI_parts rest))"
      then show ?thesis by (rule "2.IH"(2) [OF Some m [symmetric]])
    qed
  qed
qed

lemma process_line_URI:
  \<open>str_includes line ''URI="'' \<Longrightarrow>
   process_line new_URL baseUrl base line = replace_URI (rewrite_URI new_URL baseUrl base) line\<close>
  by (simp add: process_line_def Let_def)

lemma key_facts:
  \<open>str_includes ''#EXT-X-KEY:METHOD=AES-128,URI="key.bin"'' ''URI="''\<close>
  \<open>split_lines ''#EXT-X-KEY:METHOD=AES-128,URI="key.bin"'' =
     [''#EXT-X-KEY:METHOD=AES-128,URI="key.bin"'']\<close>
  \<open>URI_parts ''#EXT-X-KEY:METHOD=AES-128,URI="key.bin"'' =
     (''#EXT-X-KEY:METHOD=AES-128,'', [(''key.bin'', [])])\<close>
  "\<not> startsWith ''key.bin'' ''http''"
  "encodeURIComponent ''https://a.com/p/key.bin'' = ''https%3A%2F%2Fa.com%2Fp%2Fkey.bin''"
  "base_path ''https://a.com/p/idx.m3u8'' = ''https://a.com/p/''"
  by code_simp+

lemma key_example:
  assumes "new_URL ''key.bin'' (Some ''https://a.com/p/'') = Inr u"
    and "href u = ''https://a.com/p/key.bin''"
  shows \<open>processM3U8 new_URL ''#EXT-X-KEY:METHOD=AES-128,URI="key.bin"'' baseUrl
            ''https://a.com/p/idx.m3u8'' =
          ''#EXT-X-KEY:METHOD=AES-128,URI="'' @ baseUrl
            @ ''?url=https%3A%2F%2Fa.com%2Fp%2Fkey.bin"''\<close>
proof -
  have abs: "URI_abs new_URL ''https://a.com/p/'' ''key.bin'' = ''https://a.com/p/key.bin''"
    using assms key_facts(4) by (simp add: URI_abs_def)
  have \<open>process_line new_URL baseUrl ''https://a.com/p/'' ''#EXT-X-KEY:METHOD=AES-128,URI="key.bin"'' =
      ''#EXT-X-KEY:METHOD=AES-128,'' @ rewrite_URI new_URL baseUrl ''https://a.com/p/'' ''key.bin''\<close>
    using process_line_URI [OF key_facts(1)]
    by (simp only: URI_parts_replace key_facts(3)) simp
  then show ?thesis
    unfolding processM3U8_def Let_def key_facts(2,6)
    by (simp add: rewrite_URI_def abs key_facts(5))
qed

text \<open>
  Claim C3, as the code has it. A line that holds \<^verbatim>\<open>URI="\<close> is cut into literal text
  and attributes \<^verbatim>\<open>URI="value"\<close> with a non-empty value free of double quotes, such
  that no literal part holds such an attribute. The output is the same sequence with
  every attribute replaced by \<^verbatim>\<open>URI="\<close>, the proxy base URL, \<^verbatim>\<open>?url=\<close>, the encoded
  absolute URL and a double quote, and every literal part unchanged. The absolute URL is
  the value itself when it starts with \<^verbatim>\<open>http\<close>, otherwise what the URL parser
  resolves it to against the base path, and the value itself when the parser throws. The
  example of the specification follows.
\<close>

theorem URI_attributes_rewritten:
  \<open>(str_includes line ''URI="'' \<longrightarrow>
      (\<exists>s0 parts.
         line = s0 @ concat (map (\<lambda>(uri, s). ''URI="'' @ uri @ ''"'' @ s) parts) \<and>
         process_line new_URL baseUrl base line =
           s0 @ concat (map (\<lambda>(uri, s).
                  ''URI="'' @ baseUrl @ ''?url=''
                    @ encodeURIComponent (URI_abs new_URL base uri) @ ''"'' @ s) parts) \<and>
         \<not> has_URI_attribute s0 \<and>
         (\<forall>(uri, s)\<in>set parts. uri \<noteq> [] \<and> DQ \<notin> set uri \<and> \<not> has_URI_attribute s))) \<and>
   (startsWith v ''http'' \<longrightarrow> URI_abs new_URL base v = v) \<and>
   (\<not> startsWith v ''http'' \<and> new_URL v (Some base) = Inr u \<longrightarrow> URI_abs new_URL base v = href u) \<and>
   (\<not> startsWith v ''http'' \<and> new_URL v (Some base) = Inl err \<longrightarrow> URI_abs new_URL base v = v) \<and>
   (new_URL ''key.bin'' (Some ''https://a.com/p/'') = Inr k \<and>
    href k = ''https://a.com/p/key.bin'' \<longrightarrow>
      processM3U8 new_URL ''#EXT-X-KEY:METHOD=AES-128,URI="key.bin"'' baseUrl
          ''https://a.com/p/idx.m3u8'' =
        ''#EXT-X-KEY:METHOD=AES-128,URI="'' @ baseUrl
          @ ''?url=https%3A%2F%2Fa.com%2Fp%2Fkey.bin"'')\<close>
proof (intro conjI impI)
  assume inc: \<open>str_includes line ''URI="''\<close>
  let ?s0 = "fst (URI_parts line)" and ?parts = "snd (URI_parts line)"
  have src: \<open>line = ?s0 @ concat (map (\<lambda>(uri, s). ''URI="'' @ uri @ ''"'' @ s) ?parts)\<close>
    by (rule URI_parts_source)
  have \<open>process_line new_URL baseUrl base line =
      ?s0 @ concat (map (\<lambda>(uri, s). rewrite_URI new_URL baseUrl base uri @ s) ?parts)\<close>
    using process_line_URI [OF inc] by (simp only: URI_parts_replace)
  then have out: \<open>process_line new_URL baseUrl base line =
      ?s0 @ concat (map (\<lambda>(uri, s).
                  ''URI="'' @ baseUrl @ ''?url=''
                    @ encodeURIComponent (URI_abs new_URL base uri) @ ''"'' @ s) ?parts)\<close>
    by (simp add: rewrite_URI_def)
  have lit: "\<not> has_URI_attribute ?s0" by (rule URI_parts_literal)
  have att: "\<forall>(uri, s)\<in>set ?parts. uri \<noteq> [] \<and> DQ \<notin> set uri \<and> \<not> has_URI_attribute s"
  proof (intro ballI)
    fix p assume p: "p \<in> set ?parts"
    obtain uri s where "p = (uri, s)" by (cases p)
    with p URI_parts_attributes [of uri s line]
    show "case p of (uri, s) \<Rightarrow> uri \<noteq> [] \<and> DQ \<notin> set uri \<and> \<not> has_URI_attribute s"
      by simp
  qed
  show \<open>\<exists>s0 parts.
         line = s0 @ concat (map (\<lambda>(uri, s). ''URI="'' @ uri @ ''"'' @ s) parts) \<and>
         process_line new_URL baseUrl base line =
           s0 @ concat (map (\<lambda>(uri, s).
                  ''URI="'' @ baseUrl @ ''?url=''
                    @ encodeURIComponent (URI_abs new_URL base uri) @ ''"'' @ s) parts) \<and>
         \<not> has_URI_attribute s0 \<and>
         (\<forall>(uri, s)\<in>set parts. uri \<noteq> [] \<and> DQ \<notin> set uri \<and> \<not> has_URI_attribute s)\<close>
    apply (rule exI [of _ "fst (URI_parts line)"])
    apply (rule exI [of _ "snd (URI_parts line)"])
    apply (intro conjI)
       apply (rule src)
      apply (rule out)
     apply (rule lit)
    apply (rule att)
    done
next
  assume "startsWith v ''http''"
  then show "URI_abs new_URL base v = v" by (simp add: URI_abs_def)
next
  assume "\<not> startsWith v ''http'' \<and> new_URL v (Some base) = Inr u"
  then show "URI_abs new_URL base v = href u" by (simp add: URI_abs_def)
next
  assume "\<not> startsWith v ''http'' \<and> new_URL v (Some base) = Inl err"
  then show "URI_abs new_URL base v = v" by (simp add: URI_abs_def)
next
  assume "new_URL ''key.bin'' (Some ''https://a.com/p/'') = Inr k \<and>
    href k = ''https://a.com/p/key.bin''"
  then show \<open>processM3U8 new_URL ''#EXT-X-KEY:METHOD=AES-128,URI="key.bin"'' baseUrl
          ''https://a.com/p/idx.m3u8'' =
        ''#EXT-X-KEY:METHOD=AES-128,URI="'' @ baseUrl
          @ ''?url=https%3A%2F%2Fa.com%2Fp%2Fkey.bin"''\<close>
    by (simp add: key_example)
qed

text \<open>
  The theorem of claim C3 at the key line of the specification's example, with a value
  that starts with \<^verbatim>\<open>http\<close>, one that resolves and one whose base is rejected.
\<close>

theorem URI_attributes_rewritten_witness:
  \<open>str_includes ''#EXT-X-KEY:METHOD=AES-128,URI="key.bin"'' ''URI="'' \<and>
   (\<exists>s0 parts.
      ''#EXT-X-KEY:METHOD=AES-128,URI="key.bin"'' =
        s0 @ concat (map (\<lambda>(uri, s). ''URI="'' @ uri @ ''"'' @ s) parts) \<and>
      process_line sample_URL ''https://proxy.test/api/proxy'' ''https://a.com/p/''
          ''#EXT-X-KEY:METHOD=AES-128,URI="key.bin"'' =
        s0 @ concat (map (\<lambda>(uri, s).
               ''URI="'' @ ''https://proxy.test/api/proxy'' @ ''?url=''
                 @ encodeURIComponent (URI_abs sample_URL ''https://a.com/p/'' uri) @ ''"'' @ s) parts) \<and>
      \<not> has_URI_attribute s0 \<and>
      (\<forall>(uri, s)\<in>set parts. uri \<noteq> [] \<and> DQ \<notin> set uri \<and> \<not> has_URI_attribute s)) \<and>
   URI_abs sample_URL ''https://a.com/p/'' ''https://cdn.test/k'' = ''https://cdn.test/k'' \<and>
   URI_abs sample_URL ''https://a.com/p/'' ''key.bin'' = ''https://a.com/p/key.bin'' \<and>
   URI_abs sample_URL ''not a base'' ''key.bin'' = ''key.bin'' \<and>
   processM3U8 sample_URL ''#EXT-X-KEY:METHOD=AES-128,URI="key.bin"''
       ''https://proxy.test/api/proxy'' ''https://a.com/p/idx.m3u8'' =
     ''#EXT-X-KEY:METHOD=AES-128,URI="'' @ ''https://proxy.test/api/proxy''
       @ ''?url=https%3A%2F%2Fa.com%2Fp%2Fkey.bin"''\<close>
proof -
  let ?B = "''https://proxy.test/api/proxy''" and ?b = "''https://a.com/p/''"
  let ?L = \<open>''#EXT-X-KEY:METHOD=AES-128,URI="key.bin"''\<close>
  let ?k = "\<lparr>href = ''https://a.com/p/key.bin'', hostname = ''a.com''\<rparr>"
  have p1: \<open>str_includes ?L ''URI="''\<close> by code_simp
  have p2: "startsWith ''https://cdn.test/k'' ''http''" by code_simp
  have p3: "\<not> startsWith ''key.bin'' ''http'' \<and> sample_URL ''key.bin'' (Some ?b) = Inr ?k"
    by code_simp
  have p4: "\<not> startsWith ''key.bin'' ''http'' \<and>
      sample_URL ''key.bin'' (Some ''not a base'') = Inl ''Invalid URL''"
    by code_simp
  have p5: "sample_URL ''key.bin'' (Some ''https://a.com/p/'') = Inr ?k \<and>
      href ?k = ''https://a.com/p/key.bin''"
    by code_simp
  note th1 = URI_attributes_rewritten
    [where line = ?L and new_URL = sample_URL and baseUrl = ?B and base = ?b
       and v = "''https://cdn.test/k''" and k = ?k]
  note th2 = URI_attributes_rewritten
    [where line = ?L and new_URL = sample_URL and baseUrl = ?B and base = ?b
       and v = "''key.bin''" and u = ?k and k = ?k]
  note th3 = URI_attributes_rewritten
    [where line = ?L and new_URL = sample_URL and baseUrl = ?B and base = "''not a base''"
       and v = "''key.bin''" and err = "''Invalid URL''" and k = ?k]
  have c1: \<open>\<exists>s0 parts.
      ?L = s0 @ concat (map (\<lambda>(uri, s). ''URI="'' @ uri @ ''"'' @ s) parts) \<and>
      process_line sample_URL ?B ?b ?L =
        s0 @ concat (map (\<lambda>(uri, s).
               ''URI="'' @ ?B @ ''?url=''
                 @ encodeURIComponent (URI_abs sample_URL ?b uri) @ ''"'' @ s) parts) \<and>
      \<not> has_URI_attribute s0 \<and>
      (\<forall>(uri, s)\<in>set parts. uri \<noteq> [] \<and> DQ \<notin> set uri \<and> \<not> has_URI_attribute s)\<close>
    by (rule th1 [THEN conjunct1, THEN mp, OF p1])
  have c2: "URI_abs sample_URL ?b ''https://cdn.test/k'' = ''https://cdn.test/k''"
    by (rule th1 [THEN conjunct2, THEN conjunct1, THEN mp, OF p2])
  have c3: "URI_abs sample_URL ?b ''key.bin'' = href ?k"
    by (rule th2 [THEN conjunct2, THEN conjunct2, THEN conjunct1, THEN mp, OF p3])
  have c4: "URI_abs sample_URL ''not a base'' ''key.bin'' = ''key.bin''"
    by (rule th3 [THEN conjunct2, THEN conjunct2, THEN conjunct2, THEN conjunct1, THEN mp, OF p4])
  have c5: \<open>processM3U8 sample_URL ?L ?B ''https://a.com/p/idx.m3u8'' =
      ''#EXT-X-KEY:METHOD=AES-128,URI="'' @ ?B @ ''?url=https%3A%2F%2Fa.com%2Fp%2Fkey.bin"''\<close>
    by (rule th1 [THEN conjunct2, THEN conjunct2, THEN conjunct2, THEN conjunct2, THEN mp, OF p5])
  from c3 have c3': "URI_abs sample_URL ?b ''key.bin'' = ''https://a.com/p/key.bin''" by simp
  show ?thesis
    apply (intro conjI)
         apply (rule p1)
        apply (rule c1)
       apply (rule c2)
      apply (rule c3')
     apply (rule c4)
    apply (rule c5)
    done
qed

text \<open>
  Claim C3 as stated resolves every value that is not an absolute URL. The value
  \<^verbatim>\<open>httpkey.bin\<close> is not an absolute URL and the parser would resolve it, but it starts
  with \<^verbatim>\<open>http\<close> and is encoded as it stands.
\<close>

theorem URI_with_http_prefix_not_resolved:
  \<open>\<not> is_absolute_URL ''httpkey.bin'' \<and>
   sample_URL ''httpkey.bin'' (Some ''https://a.com/p/'') =
     Inr \<lparr>href = ''https://a.com/p/httpkey.bin'', hostname = ''a.com''\<rparr> \<and>
   process_line sample_URL ''https://proxy.test/api/proxy'' ''https://a.com/p/''
       ''#EXT-X-KEY:METHOD=AES-128,URI="httpkey.bin"'' =
     ''#EXT-X-KEY:METHOD=AES-128,URI="https://proxy.test/api/proxy?url=httpkey.bin"''\<close>
  by code_simp

text \<open>
  Claim C1 at a key line. The first pass rewrites the attribute; the second pass matches
  the rewritten attribute again, finds that its value starts with \<^verbatim>\<open>http\<close>, and
  encodes the proxied URL once more: the attribute branch has no guard for a value that
  already points at the proxy base URL, as the segment branch has.
\<close>

theorem URI_rewrite_not_idempotent:
  \<open>processM3U8 sample_URL ''#EXT-X-KEY:METHOD=AES-128,URI="key.bin"''
       ''https://proxy.test/api/proxy'' ''https://a.com/p/idx.m3u8'' =
     ''#EXT-X-KEY:METHOD=AES-128,URI="https://proxy.test/api/proxy?url=https%3A%2F%2Fa.com%2Fp%2Fkey.bin"'' \<and>
   processM3U8 sample_URL
       (processM3U8 sample_URL ''#EXT-X-KEY:METHOD=AES-128,URI="key.bin"''
          ''https://proxy.test/api/proxy'' ''https://a.com/p/idx.m3u8'')
       ''https://proxy.test/api/proxy'' ''https://a.com/p/idx.m3u8'' =
     ''#EXT-X-KEY:METHOD=AES-128,URI="https://proxy.test/api/proxy?url=https%3A%2F%2Fproxy.test%2Fapi%2Fproxy%3Furl%3Dhttps%253A%252F%252Fa.com%252Fp%252Fkey.bin"'' \<and>
   processM3U8 sample_URL
       (processM3U8 sample_URL ''#EXT-X-KEY:METHOD=AES-128,URI="key.bin"''
          ''https://proxy.test/api/proxy'' ''https://a.com/p/idx.m3u8'')
       ''https://proxy.test/api/proxy'' ''https://a.com/p/idx.m3u8'' \<noteq>
     processM3U8 sample_URL ''#EXT-X-KEY:METHOD=AES-128,URI="key.bin"''
       ''https://proxy.test/api/proxy'' ''https://a.com/p/idx.m3u8''\<close>
  by code_simp

section \<open>Properties of the Request Relay\<close>

subsection \<open>Headers and the response object\<close>

lemma map_of_set_entry:
  "map_of (set_entry k v es) k' = (if k' = k then Some v else map_of es k')"
  by (induction es) auto

lemma getHeader_setHeader:
  "getHeader (setHeader k v res) k' = (if k' = k then Some v else getHeader res k')"
  by (simp add: getHeader_def setHeader_def map_of_set_entry)

lemma getHeader_status [simp]: "getHeader (status n res) k = getHeader res k"
  by (simp add: getHeader_def status_def)

lemma getHeader_send [simp]: "getHeader (send b res) k = getHeader res k"
  by (simp add: getHeader_def send_def)

lemma getHeader_forward_header:
  "getHeader (forward_header name v res) k =
     (if k = name \<and> truthy v then v else getHeader res k)"
  by (auto simp: forward_header_def truthy_def getHeader_setHeader split: option.splits)

lemma getHeader_set_CORS:
  "getHeader (set_CORS res) k =
     (case map_of CORS_HEADERS k of Some v \<Rightarrow> Some v | None \<Rightarrow> getHeader res k)"
  by (simp add: set_CORS_def CORS_HEADERS_def getHeader_setHeader)

lemma has_CORS_set_CORS: "has_CORS (set_CORS res)"
  by (simp add: has_CORS_def getHeader_set_CORS CORS_HEADERS_def)

lemma has_CORS_status: "has_CORS (status n res) = has_CORS res"
  by (simp add: has_CORS_def)

lemma has_CORS_send: "has_CORS (send b res) = has_CORS res"
  by (simp add: has_CORS_def)

lemma has_CORS_setHeader:
  "has_CORS res \<Longrightarrow> k \<in> {''Content-Type'', ''Cache-Control'', ''Content-Length'', ''Content-Range'', ''Accept-Ranges''} \<Longrightarrow> has_CORS (setHeader k v res)"
  by (auto simp add: has_CORS_def getHeader_setHeader)

lemma has_CORS_forward_header:
  "has_CORS res \<Longrightarrow> k \<in> {''Content-Type'', ''Cache-Control'', ''Content-Length'', ''Content-Range'', ''Accept-Ranges''} \<Longrightarrow> has_CORS (forward_header k v res)"
  by (auto simp: forward_header_def has_CORS_setHeader split: option.splits)

lemma has_CORS_bad_request: "has_CORS (bad_request req)"
  by (simp add: bad_request_def has_CORS_send has_CORS_status has_CORS_set_CORS)

lemma has_CORS_catch_block: "has_CORS (catch_block m t res)"
  by (simp add: catch_block_def has_CORS_send has_CORS_status has_CORS_set_CORS)

lemma try_block_has_CORS:
  "try_block new_URL fetch req targetUrl res = (Inr r, calls) \<Longrightarrow> has_CORS r"
  by (auto simp: try_block_def Let_def has_CORS_send has_CORS_status has_CORS_set_CORS
        has_CORS_setHeader has_CORS_forward_header
      split: sum.splits if_splits)

lemma handler_has_CORS: "has_CORS (fst (handler new_URL fetch req))"
  by (auto simp: handler_def has_CORS_send has_CORS_status has_CORS_set_CORS
        has_CORS_bad_request has_CORS_catch_block
      dest: try_block_has_CORS split: option.splits sum.splits prod.splits)

lemma handler_missing_url:
  assumes "req_method req \<noteq> Some ''OPTIONS''" and "\<not> truthy (query_url req)"
  shows "handler new_URL fetch req = (bad_request req, [])"
  using assms by (auto simp: handler_def truthy_def split: option.splits)

lemma handler_unparsable_url:
  assumes "req_method req \<noteq> Some ''OPTIONS''" and "query_url req = Some targetUrl"
    and "targetUrl \<noteq> []" and "new_URL targetUrl None = Inl message"
  shows "handler new_URL fetch req = (catch_block message targetUrl new_response, [])"
  using assms by (simp add: handler_def try_block_def)

lemma statusCode_simps [simp]:
  "statusCode (status n res) = n"
  "statusCode (send b res) = statusCode res"
  "statusCode (setHeader k v res) = statusCode res"
  by (simp_all add: status_def send_def setHeader_def)

lemma body_simps [simp]:
  "body (send b res) = b"
  by (simp_all add: send_def)

lemma handler_playlist:
  assumes "req_method req \<noteq> Some ''OPTIONS''" and "query_url req = Some targetUrl"
    and "targetUrl \<noteq> []" and "new_URL targetUrl None = Inr url"
    and "fetch (upstream_request req targetUrl url) = Inr response"
    and "isM3U8 targetUrl response" and "up_text response = Inr content"
  shows "handler new_URL fetch req =
     (send (Text (processM3U8 new_URL content
                    (''https://'' @ template (header_host req) @ ''/api/proxy'') targetUrl))
        (status 200
          (setHeader ''Cache-Control'' ''public, max-age=300''
            (set_CORS (setHeader ''Content-Type'' ''application/vnd.apple.mpegurl'' new_response)))),
      [upstream_request req targetUrl url])"
  using assms by (simp add: handler_def try_block_def Let_def)

lemma handler_opaque:
  assumes "req_method req \<noteq> Some ''OPTIONS''" and "query_url req = Some targetUrl"
    and "targetUrl \<noteq> []" and "new_URL targetUrl None = Inr url"
    and "fetch (upstream_request req targetUrl url) = Inr response"
    and "\<not> isM3U8 targetUrl response" and "up_arrayBuffer response = Inr buffer"
  shows "handler new_URL fetch req =
     (send (Buffer buffer)
        (status (up_status response)
          (forward_header ''Accept-Ranges'' (up_headers response ''accept-ranges'')
            (forward_header ''Content-Range'' (up_headers response ''content-range'')
              (forward_header ''Content-Length'' (up_headers response ''content-length'')
                (forward_header ''Content-Type'' (up_headers response ''content-type'')
                  (set_CORS new_response)))))),
      [upstream_request req targetUrl url])"
  using assms by (simp add: handler_def try_block_def Let_def)

lemma handler_calls:
  assumes "req_method req \<noteq> Some ''OPTIONS''" and "query_url req = Some targetUrl"
    and "targetUrl \<noteq> []" and "new_URL targetUrl None = Inr url"
  shows "snd (handler new_URL fetch req) = [upstream_request req targetUrl url]"
  using assms
  by (auto simp: handler_def try_block_def Let_def split: sum.splits prod.splits)

lemma isM3U8_iff:
  "isM3U8 targetUrl response \<longleftrightarrow>
     endsWith targetUrl ''.m3u8'' \<or>
     (\<exists>ct. up_headers response ''content-type'' = Some ct \<and> str_includes ct ''mpegurl'')"
  by (auto simp: isM3U8_def split: option.splits)

lemma forward_header_simps [simp]:
  "statusCode (forward_header k v res) = statusCode res"
  by (auto simp: forward_header_def split: option.splits)

lemma upstream_Range:
  "header_range req = Some r \<Longrightarrow> r \<noteq> [] \<Longrightarrow>
   map_of (fetch_headers (upstream_request req targetUrl url)) ''Range'' = Some r"
  by (simp add: upstream_request_def upstream_headers_def Let_def map_of_set_entry)


subsection \<open>Client input errors\<close>

text \<open>
  Claim C4, as the code has it. For a request other than \<^verbatim>\<open>OPTIONS\<close> whose \<^verbatim>\<open>url\<close>
  parameter is absent or empty, the handler answers 400 with a JSON body holding
  \<^verbatim>\<open>error\<close>, \<^verbatim>\<open>usage\<close> and \<^verbatim>\<open>example\<close>, and makes no upstream call. When the parameter
  is present but the URL parser rejects it, the handler makes no upstream call either,
  but the answer is 500 with a JSON body holding \<^verbatim>\<open>error\<close>, \<^verbatim>\<open>message\<close> and
  \<^verbatim>\<open>target\<close>: the parser runs inside the \<^verbatim>\<open>try\<close> block.
\<close>

theorem url_missing_or_unparsable:
  "(req_method req \<noteq> Some ''OPTIONS'' \<and> \<not> truthy (query_url req) \<longrightarrow>
      statusCode (fst (handler new_URL fetch req)) = 400 \<and>
      body (fst (handler new_URL fetch req)) =
        Json [(''error'', ''Missing url parameter''),
              (''usage'', ''Add ?url=https://example.com/video.m3u8''),
              (''example'', ''https://'' @ template (header_host req)
                  @ ''/api/proxy?url=https://example.com/video.m3u8'')] \<and>
      snd (handler new_URL fetch req) = []) \<and>
   (req_method req \<noteq> Some ''OPTIONS'' \<and> query_url req = Some targetUrl \<and> targetUrl \<noteq> [] \<and>
    new_URL targetUrl None = Inl message \<longrightarrow>
      statusCode (fst (handler new_URL fetch req)) = 500 \<and>
      body (fst (handler new_URL fetch req)) =
        Json [(''error'', ''Proxy request failed''),
              (''message'', or_else (Some message) ''Unknown error''),
              (''target'', targetUrl)] \<and>
      snd (handler new_URL fetch req) = [])"
proof (intro conjI impI)
  assume a: "req_method req \<noteq> Some ''OPTIONS'' \<and> \<not> truthy (query_url req)"
  then have h: "handler new_URL fetch req = (bad_request req, [])"
    by (simp add: handler_missing_url)
  show "statusCode (fst (handler new_URL fetch req)) = 400"
    by (simp add: h bad_request_def)
  show "body (fst (handler new_URL fetch req)) =
        Json [(''error'', ''Missing url parameter''),
              (''usage'', ''Add ?url=https://example.com/video.m3u8''),
              (''example'', ''https://'' @ template (header_host req)
                  @ ''/api/proxy?url=https://example.com/video.m3u8'')]"
    by (simp add: h bad_request_def)
  show "snd (handler new_URL fetch req) = []" by (simp add: h)
next
  assume a: "req_method req \<noteq> Some ''OPTIONS'' \<and> query_url req = Some targetUrl \<and>
    targetUrl \<noteq> [] \<and> new_URL targetUrl None = Inl message"
  then have h: "handler new_URL fetch req = (catch_block message targetUrl new_response, [])"
    by (simp add: handler_unparsable_url)
  show "statusCode (fst (handler new_URL fetch req)) = 500"
    by (simp add: h catch_block_def)
  show "body (fst (handler new_URL fetch req)) =
        Json [(''error'', ''Proxy request failed''),
              (''message'', or_else (Some message) ''Unknown error''),
              (''target'', targetUrl)]"
    by (simp add: h catch_block_def)
  show "snd (handler new_URL fetch req) = []" by (simp add: h)
qed

text \<open>
  The theorem of claim C4 at two requests: one without \<^verbatim>\<open>url\<close>, one with
  \<^verbatim>\<open>url=not-a-url\<close>.
\<close>

theorem url_missing_or_unparsable_witness:
  "statusCode (fst (handler sample_URL unreachable (get_request None None))) = 400 \<and>
   body (fst (handler sample_URL unreachable (get_request None None))) =
     Json [(''error'', ''Missing url parameter''),
           (''usage'', ''Add ?url=https://example.com/video.m3u8''),
           (''example'', ''https://proxy.test/api/proxy?url=https://example.com/video.m3u8'')] \<and>
   snd (handler sample_URL unreachable (get_request None None)) = [] \<and>
   statusCode (fst (handler sample_URL unreachable (get_request (Some ''not-a-url'') None))) = 500 \<and>
   body (fst (handler sample_URL unreachable (get_request (Some ''not-a-url'') None))) =
     Json [(''error'', ''Proxy request failed''), (''message'', ''Invalid URL''),
           (''target'', ''not-a-url'')] \<and>
   snd (handler sample_URL unreachable (get_request (Some ''not-a-url'') None)) = []"
proof -
  have p1: "req_method (get_request None None) \<noteq> Some ''OPTIONS'' \<and>
      \<not> truthy (query_url (get_request None None))"
    by (simp add: get_request_def truthy_def)
  have p2: "req_method (get_request (Some ''not-a-url'') None) \<noteq> Some ''OPTIONS'' \<and>
      query_url (get_request (Some ''not-a-url'') None) = Some ''not-a-url'' \<and>
      ''not-a-url'' \<noteq> [] \<and> sample_URL ''not-a-url'' None = Inl ''Invalid URL''"
    by (simp add: get_request_def sample_URL_def startsWith_def)
  have t1: "template (header_host (get_request None None)) = ''proxy.test''"
    by (simp add: get_request_def template_def)
  have t2: "or_else (Some ''Invalid URL'') ''Unknown error'' = ''Invalid URL''"
    by (simp add: or_else_def)
  from p1 url_missing_or_unparsable
    [where req = "get_request None None" and new_URL = sample_URL and fetch = unreachable]
  have c1: "statusCode (fst (handler sample_URL unreachable (get_request None None))) = 400 \<and>
      body (fst (handler sample_URL unreachable (get_request None None))) =
        Json [(''error'', ''Missing url parameter''),
              (''usage'', ''Add ?url=https://example.com/video.m3u8''),
              (''example'', ''https://'' @ template (header_host (get_request None None))
                  @ ''/api/proxy?url=https://example.com/video.m3u8'')] \<and>
      snd (handler sample_URL unreachable (get_request None None)) = []"
    by blast
  from p2 url_missing_or_unparsable
    [where req = "get_request (Some ''not-a-url'') None" and new_URL = sample_URL
       and fetch = unreachable and targetUrl = "''not-a-url''" and message = "''Invalid URL''"]
  have c2: "statusCode (fst (handler sample_URL unreachable (get_request (Some ''not-a-url'') None))) = 500 \<and>
      body (fst (handler sample_URL unreachable (get_request (Some ''not-a-url'') None))) =
        Json [(''error'', ''Proxy request failed''),
              (''message'', or_else (Some ''Invalid URL'') ''Unknown error''),
              (''target'', ''not-a-url'')] \<and>
      snd (handler sample_URL unreachable (get_request (Some ''not-a-url'') None)) = []"
    by blast
  from c1 c2 t1 t2 show ?thesis by simp
qed

text \<open>
  Claim C4 as stated asks for 400 when the parameter does not parse. At
  \<^verbatim>\<open>url=not-a-url\<close> the answer is 500.
\<close>

theorem unparsable_url_answers_500:
  "req_method (get_request (Some ''not-a-url'') None) \<noteq> Some ''OPTIONS'' \<and>
   sample_URL ''not-a-url'' None = Inl ''Invalid URL'' \<and>
   statusCode (fst (handler sample_URL unreachable (get_request (Some ''not-a-url'') None))) = 500 \<and>
   statusCode (fst (handler sample_URL unreachable (get_request (Some ''not-a-url'') None))) \<noteq> 400"
  by code_simp

subsection \<open>CORS headers\<close>

text \<open>
  Claim C5, as the code has it. Every response of the handler of \<^verbatim>\<open>proxy.ts\<close>, lines
  69-162, whatever the URL parser and the upstream do (preflight, 400, rewritten
  playlist, forwarded content, 500), carries the four CORS headers with the values of
  \<^verbatim>\<open>CORS_HEADERS\<close>.
\<close>

theorem handler_CORS_on_every_response:
  "getHeader (fst (handler new_URL fetch req)) ''Access-Control-Allow-Origin'' = Some ''*'' \<and>
   getHeader (fst (handler new_URL fetch req)) ''Access-Control-Allow-Methods'' =
     Some ''GET, POST, OPTIONS'' \<and>
   getHeader (fst (handler new_URL fetch req)) ''Access-Control-Allow-Headers'' =
     Some ''Content-Type, Range, Authorization'' \<and>
   getHeader (fst (handler new_URL fetch req)) ''Access-Control-Expose-Headers'' =
     Some ''Content-Length, Content-Range''"
  using handler_has_CORS [of new_URL fetch req] by (simp add: has_CORS_def)

text \<open>
  Claim C5 as stated speaks of every response of the handler. The minimal handler in the
  same file (lines 166-187) answers 400 and 500 with no header set, and sets only
  \<^verbatim>\<open>Access-Control-Allow-Origin\<close> on a relayed response.
\<close>

theorem minimal_handler_without_CORS:
  "statusCode (fst (minimal_handler unreachable (get_request None None))) = 400 \<and>
   headers (fst (minimal_handler unreachable (get_request None None))) = [] \<and>
   statusCode (fst (minimal_handler unreachable (get_request (Some ''https://a.com/x'') None))) = 500 \<and>
   headers (fst (minimal_handler unreachable (get_request (Some ''https://a.com/x'') None))) = [] \<and>
   getHeader (fst (minimal_handler (answering partial_segment)
                 (get_request (Some ''https://a.com/x'') None)))
     ''Access-Control-Expose-Headers'' = None"
  by code_simp

subsection \<open>Classification of the upstream response\<close>

text \<open>
  Claim C6, as the code has it. When the upstream call succeeds, the response is treated
  as a playlist exactly when the target URL string ends in \<^verbatim>\<open>.m3u8\<close> or the upstream
  content type contains \<^verbatim>\<open>mpegurl\<close>. Then, once the body text is read, the answer is 200
  with the rewritten text. Otherwise, once the body bytes are read, the answer has the
  upstream status and these bytes unmodified.
\<close>

theorem classification:
  "(req_method req \<noteq> Some ''OPTIONS'' \<and> query_url req = Some targetUrl \<and> targetUrl \<noteq> [] \<and>
    new_URL targetUrl None = Inr url \<and>
    fetch (upstream_request req targetUrl url) = Inr response \<and>
    (endsWith targetUrl ''.m3u8'' \<or>
     (\<exists>ct. up_headers response ''content-type'' = Some ct \<and> str_includes ct ''mpegurl'')) \<and>
    up_text response = Inr content \<longrightarrow>
      statusCode (fst (handler new_URL fetch req)) = 200 \<and>
      body (fst (handler new_URL fetch req)) =
        Text (processM3U8 new_URL content
                (''https://'' @ template (header_host req) @ ''/api/proxy'') targetUrl)) \<and>
   (req_method req \<noteq> Some ''OPTIONS'' \<and> query_url req = Some targetUrl \<and> targetUrl \<noteq> [] \<and>
    new_URL targetUrl None = Inr url \<and>
    fetch (upstream_request req targetUrl url) = Inr response \<and>
    \<not> (endsWith targetUrl ''.m3u8'' \<or>
       (\<exists>ct. up_headers response ''content-type'' = Some ct \<and> str_includes ct ''mpegurl'')) \<and>
    up_arrayBuffer response = Inr buffer \<longrightarrow>
      statusCode (fst (handler new_URL fetch req)) = up_status response \<and>
      body (fst (handler new_URL fetch req)) = Buffer buffer)"
proof (intro conjI impI)
  assume a: "req_method req \<noteq> Some ''OPTIONS'' \<and> query_url req = Some targetUrl \<and>
    targetUrl \<noteq> [] \<and> new_URL targetUrl None = Inr url \<and>
    fetch (upstream_request req targetUrl url) = Inr response \<and>
    (endsWith targetUrl ''.m3u8'' \<or>
     (\<exists>ct. up_headers response ''content-type'' = Some ct \<and> str_includes ct ''mpegurl'')) \<and>
    up_text response = Inr content"
  then have "isM3U8 targetUrl response" unfolding isM3U8_iff by blast
  with a have h: "handler new_URL fetch req =
     (send (Text (processM3U8 new_URL content
                    (''https://'' @ template (header_host req) @ ''/api/proxy'') targetUrl))
        (status 200
          (setHeader ''Cache-Control'' ''public, max-age=300''
            (set_CORS (setHeader ''Content-Type'' ''application/vnd.apple.mpegurl'' new_response)))),
      [upstream_request req targetUrl url])"
    by (simp add: handler_playlist)
  show "statusCode (fst (handler new_URL fetch req)) = 200" by (simp add: h)
  show "body (fst (handler new_URL fetch req)) =
        Text (processM3U8 new_URL content
                (''https://'' @ template (header_host req) @ ''/api/proxy'') targetUrl)"
    by (simp add: h)
next
  assume a: "req_method req \<noteq> Some ''OPTIONS'' \<and> query_url req = Some targetUrl \<and>
    targetUrl \<noteq> [] \<and> new_URL targetUrl None = Inr url \<and>
    fetch (upstream_request req targetUrl url) = Inr response \<and>
    \<not> (endsWith targetUrl ''.m3u8'' \<or>
       (\<exists>ct. up_headers response ''content-type'' = Some ct \<and> str_includes ct ''mpegurl'')) \<and>
    up_arrayBuffer response = Inr buffer"
  then have "\<not> isM3U8 targetUrl response" unfolding isM3U8_iff by blast
  with a have h: "handler new_URL fetch req =
     (send (Buffer buffer)
        (status (up_status response)
          (forward_header ''Accept-Ranges'' (up_headers response ''accept-ranges'')
            (forward_header ''Content-Range'' (up_headers response ''content-range'')
              (forward_header ''Content-Length'' (up_headers response ''content-length'')
                (forward_header ''Content-Type'' (up_headers response ''content-type'')
                  (set_CORS new_response)))))),
      [upstream_request req targetUrl url])"
    by (simp add: handler_opaque)
  show "statusCode (fst (handler new_URL fetch req)) = up_status response" by (simp add: h)
  show "body (fst (handler new_URL fetch req)) = Buffer buffer" by (simp add: h)
qed

text \<open>
  The theorem of claim C6 at a playlist URL with a \<^verbatim>\<open>text/plain\<close> body and at a
  segment URL.
\<close>

theorem classification_witness:
  "body (fst (handler sample_URL (answering plain_playlist)
                (get_request (Some ''https://a.com/v/index.m3u8'') None))) =
     Text (processM3U8 sample_URL (''#EXTM3U'' @ [LF] @ ''seg1.ts'')
             ''https://proxy.test/api/proxy'' ''https://a.com/v/index.m3u8'') \<and>
   statusCode (fst (handler sample_URL (answering plain_playlist)
                (get_request (Some ''https://a.com/v/index.m3u8'') None))) = 200 \<and>
   body (fst (handler sample_URL (answering partial_segment)
                (get_request (Some ''https://cdn.akamaized.net/v/seg1.ts'') None))) =
     Buffer ''G@AB'' \<and>
   statusCode (fst (handler sample_URL (answering partial_segment)
                (get_request (Some ''https://cdn.akamaized.net/v/seg1.ts'') None))) = 206"
proof -
  let ?r1 = "get_request (Some ''https://a.com/v/index.m3u8'') None"
  let ?u1 = "\<lparr>href = ''https://a.com/v/index.m3u8'', hostname = ''a.com''\<rparr>"
  let ?r2 = "get_request (Some ''https://cdn.akamaized.net/v/seg1.ts'') None"
  let ?u2 = "\<lparr>href = ''https://cdn.akamaized.net/v/seg1.ts'', hostname = ''cdn.akamaized.net''\<rparr>"
  have p1: "req_method ?r1 \<noteq> Some ''OPTIONS'' \<and> query_url ?r1 = Some ''https://a.com/v/index.m3u8'' \<and>
      ''https://a.com/v/index.m3u8'' \<noteq> [] \<and>
      sample_URL ''https://a.com/v/index.m3u8'' None = Inr ?u1 \<and>
      answering plain_playlist (upstream_request ?r1 ''https://a.com/v/index.m3u8'' ?u1) =
        Inr plain_playlist \<and>
      (endsWith ''https://a.com/v/index.m3u8'' ''.m3u8'' \<or>
       (\<exists>ct. up_headers plain_playlist ''content-type'' = Some ct \<and> str_includes ct ''mpegurl'')) \<and>
      up_text plain_playlist = Inr (''#EXTM3U'' @ [LF] @ ''seg1.ts'')"
    by (simp add: get_request_def sample_URL_def startsWith_def endsWith_def answering_def
          plain_playlist_def)
  have p2: "req_method ?r2 \<noteq> Some ''OPTIONS'' \<and>
      query_url ?r2 = Some ''https://cdn.akamaized.net/v/seg1.ts'' \<and>
      ''https://cdn.akamaized.net/v/seg1.ts'' \<noteq> [] \<and>
      sample_URL ''https://cdn.akamaized.net/v/seg1.ts'' None = Inr ?u2 \<and>
      answering partial_segment (upstream_request ?r2 ''https://cdn.akamaized.net/v/seg1.ts'' ?u2) =
        Inr partial_segment \<and>
      \<not> (endsWith ''https://cdn.akamaized.net/v/seg1.ts'' ''.m3u8'' \<or>
         (\<exists>ct. up_headers partial_segment ''content-type'' = Some ct \<and> str_includes ct ''mpegurl'')) \<and>
      up_arrayBuffer partial_segment = Inr ''G@AB''"
    by (simp add: get_request_def sample_URL_def startsWith_def endsWith_def answering_def
          partial_segment_def)
  have host: "template (header_host ?r1) = ''proxy.test''"
    by (simp add: get_request_def template_def)
  have st: "up_status partial_segment = 206" by (simp add: partial_segment_def)
  from p1 classification
    [where req = ?r1 and new_URL = sample_URL and fetch = "answering plain_playlist"
       and targetUrl = "''https://a.com/v/index.m3u8''" and url = ?u1
       and response = plain_playlist and content = "''#EXTM3U'' @ [LF] @ ''seg1.ts''"]
  have c1: "statusCode (fst (handler sample_URL (answering plain_playlist) ?r1)) = 200 \<and>
      body (fst (handler sample_URL (answering plain_playlist) ?r1)) =
        Text (processM3U8 sample_URL (''#EXTM3U'' @ [LF] @ ''seg1.ts'')
                (''https://'' @ template (header_host ?r1) @ ''/api/proxy'')
                ''https://a.com/v/index.m3u8'')"
    by blast
  from p2 classification
    [where req = ?r2 and new_URL = sample_URL and fetch = "answering partial_segment"
       and targetUrl = "''https://cdn.akamaized.net/v/seg1.ts''" and url = ?u2
       and response = partial_segment and buffer = "''G@AB''"]
  have c2: "statusCode (fst (handler sample_URL (answering partial_segment) ?r2)) =
        up_status partial_segment \<and>
      body (fst (handler sample_URL (answering partial_segment) ?r2)) = Buffer ''G@AB''"
    by blast
  from c1 c2 host st show ?thesis by simp
qed

text \<open>
  Claim C6 as stated tests the path of the target URL. The code tests the whole URL
  string: a playlist URL with a query is forwarded unmodified, and a URL whose query ends
  in \<^verbatim>\<open>.m3u8\<close> has its body rewritten.
\<close>

theorem path_extension_is_not_the_test:
  "endsWith (URL_path ''https://a.com/v/index.m3u8?token=1'') ''.m3u8'' \<and>
   body (fst (handler sample_URL (answering plain_playlist)
                (get_request (Some ''https://a.com/v/index.m3u8?token=1'') None))) =
     Buffer (''#EXTM3U'' @ [LF] @ ''seg1.ts'') \<and>
   \<not> endsWith (URL_path ''https://a.com/get?file=index.m3u8'') ''.m3u8'' \<and>
   up_headers plain_playlist ''content-type'' = Some ''text/plain'' \<and>
   body (fst (handler sample_URL (answering plain_playlist)
                (get_request (Some ''https://a.com/get?file=index.m3u8'') None))) =
     Text (''#EXTM3U'' @ [LF] @ ''https://proxy.test/api/proxy?url=https%3A%2F%2Fa.com%2Fseg1.ts'')"
  by code_simp

subsection \<open>Range requests\<close>

text \<open>
  Claim C8, as the code has it. When the request has a non-empty \<^verbatim>\<open>Range\<close> header and
  the target URL parses, the handler makes one upstream call, which carries that same
  \<^verbatim>\<open>Range\<close> value. When the upstream response is not classified as a playlist and its
  bytes are read, the answer keeps the upstream status (206 included) and forwards a
  non-empty upstream \<^verbatim>\<open>Content-Range\<close>.
\<close>

theorem range_forwarding:
  "(req_method req \<noteq> Some ''OPTIONS'' \<and> query_url req = Some targetUrl \<and> targetUrl \<noteq> [] \<and>
    new_URL targetUrl None = Inr url \<and> header_range req = Some r \<and> r \<noteq> [] \<longrightarrow>
      snd (handler new_URL fetch req) = [upstream_request req targetUrl url] \<and>
      map_of (fetch_headers (upstream_request req targetUrl url)) ''Range'' = Some r) \<and>
   (req_method req \<noteq> Some ''OPTIONS'' \<and> query_url req = Some targetUrl \<and> targetUrl \<noteq> [] \<and>
    new_URL targetUrl None = Inr url \<and>
    fetch (upstream_request req targetUrl url) = Inr response \<and>
    \<not> isM3U8 targetUrl response \<and> up_arrayBuffer response = Inr buffer \<and>
    up_headers response ''content-range'' = Some cr \<and> cr \<noteq> [] \<longrightarrow>
      statusCode (fst (handler new_URL fetch req)) = up_status response \<and>
      getHeader (fst (handler new_URL fetch req)) ''Content-Range'' = Some cr)"
proof (intro conjI impI)
  assume a: "req_method req \<noteq> Some ''OPTIONS'' \<and> query_url req = Some targetUrl \<and>
    targetUrl \<noteq> [] \<and> new_URL targetUrl None = Inr url \<and> header_range req = Some r \<and> r \<noteq> []"
  then show "snd (handler new_URL fetch req) = [upstream_request req targetUrl url]"
    by (simp add: handler_calls)
  from a show "map_of (fetch_headers (upstream_request req targetUrl url)) ''Range'' = Some r"
    by (simp add: upstream_Range)
next
  assume a: "req_method req \<noteq> Some ''OPTIONS'' \<and> query_url req = Some targetUrl \<and>
    targetUrl \<noteq> [] \<and> new_URL targetUrl None = Inr url \<and>
    fetch (upstream_request req targetUrl url) = Inr response \<and>
    \<not> isM3U8 targetUrl response \<and> up_arrayBuffer response = Inr buffer \<and>
    up_headers response ''content-range'' = Some cr \<and> cr \<noteq> []"
  then have h: "handler new_URL fetch req =
     (send (Buffer buffer)
        (status (up_status response)
          (forward_header ''Accept-Ranges'' (up_headers response ''accept-ranges'')
            (forward_header ''Content-Range'' (up_headers response ''content-range'')
              (forward_header ''Content-Length'' (up_headers response ''content-length'')
                (forward_header ''Content-Type'' (up_headers response ''content-type'')
                  (set_CORS new_response)))))),
      [upstream_request req targetUrl url])"
    by (simp add: handler_opaque)
  show "statusCode (fst (handler new_URL fetch req)) = up_status response" by (simp add: h)
  from a show "getHeader (fst (handler new_URL fetch req)) ''Content-Range'' = Some cr"
    by (simp add: h getHeader_forward_header truthy_def)
qed

text \<open>
  The theorem of claim C8 at a range request for a segment that the upstream answers
  with 206.
\<close>

theorem range_forwarding_witness:
  "snd (handler sample_URL (answering partial_segment)
          (get_request (Some ''https://cdn.akamaized.net/v/seg1.ts'') (Some ''bytes=0-3''))) =
     [upstream_request (get_request (Some ''https://cdn.akamaized.net/v/seg1.ts'') (Some ''bytes=0-3''))
        ''https://cdn.akamaized.net/v/seg1.ts''
        \<lparr>href = ''https://cdn.akamaized.net/v/seg1.ts'', hostname = ''cdn.akamaized.net''\<rparr>] \<and>
   map_of (fetch_headers
      (upstream_request (get_request (Some ''https://cdn.akamaized.net/v/seg1.ts'') (Some ''bytes=0-3''))
        ''https://cdn.akamaized.net/v/seg1.ts''
        \<lparr>href = ''https://cdn.akamaized.net/v/seg1.ts'', hostname = ''cdn.akamaized.net''\<rparr>))
     ''Range'' = Some ''bytes=0-3'' \<and>
   statusCode (fst (handler sample_URL (answering partial_segment)
          (get_request (Some ''https://cdn.akamaized.net/v/seg1.ts'') (Some ''bytes=0-3'')))) = 206 \<and>
   getHeader (fst (handler sample_URL (answering partial_segment)
          (get_request (Some ''https://cdn.akamaized.net/v/seg1.ts'') (Some ''bytes=0-3''))))
     ''Content-Range'' = Some ''bytes 0-3/64''"
proof -
  let ?t = "''https://cdn.akamaized.net/v/seg1.ts''"
  let ?r = "get_request (Some ?t) (Some ''bytes=0-3'')"
  let ?u = "\<lparr>href = ?t, hostname = ''cdn.akamaized.net''\<rparr>"
  have p1: "req_method ?r \<noteq> Some ''OPTIONS'' \<and> query_url ?r = Some ?t \<and> ?t \<noteq> [] \<and>
      sample_URL ?t None = Inr ?u \<and> header_range ?r = Some ''bytes=0-3'' \<and> ''bytes=0-3'' \<noteq> []"
    by (simp add: get_request_def sample_URL_def startsWith_def)
  have p2: "req_method ?r \<noteq> Some ''OPTIONS'' \<and> query_url ?r = Some ?t \<and> ?t \<noteq> [] \<and>
      sample_URL ?t None = Inr ?u \<and>
      answering partial_segment (upstream_request ?r ?t ?u) = Inr partial_segment \<and>
      \<not> isM3U8 ?t partial_segment \<and> up_arrayBuffer partial_segment = Inr ''G@AB'' \<and>
      up_headers partial_segment ''content-range'' = Some ''bytes 0-3/64'' \<and>
      ''bytes 0-3/64'' \<noteq> []"
    by (simp add: get_request_def sample_URL_def startsWith_def endsWith_def answering_def
          partial_segment_def isM3U8_def)
  have st: "up_status partial_segment = 206" by (simp add: partial_segment_def)
  from p1 range_forwarding
    [where req = ?r and new_URL = sample_URL and fetch = "answering partial_segment"
       and targetUrl = ?t and url = ?u and r = "''bytes=0-3''"]
  have c1: "snd (handler sample_URL (answering partial_segment) ?r) = [upstream_request ?r ?t ?u] \<and>
      map_of (fetch_headers (upstream_request ?r ?t ?u)) ''Range'' = Some ''bytes=0-3''"
    by blast
  from p2 range_forwarding
    [where req = ?r and new_URL = sample_URL and fetch = "answering partial_segment"
       and targetUrl = ?t and url = ?u and response = partial_segment
       and buffer = "''G@AB''" and cr = "''bytes 0-3/64''"]
  have c2: "statusCode (fst (handler sample_URL (answering partial_segment) ?r)) =
        up_status partial_segment \<and>
      getHeader (fst (handler sample_URL (answering partial_segment) ?r)) ''Content-Range'' =
        Some ''bytes 0-3/64''"
    by blast
  from c1 c2 st show ?thesis by simp
qed

text \<open>
  Claim C8 as stated covers every 206 answer. For a response classified as a playlist
  the handler answers 200 and does not forward \<^verbatim>\<open>Content-Range\<close>.
\<close>

theorem playlist_answers_200_to_range:
  "header_range (get_request (Some ''https://a.com/v/index.m3u8'') (Some ''bytes=0-15'')) =
     Some ''bytes=0-15'' \<and>
   up_status partial_playlist = 206 \<and>
   up_headers partial_playlist ''content-range'' = Some ''bytes 0-15/64'' \<and>
   statusCode (fst (handler sample_URL (answering partial_playlist)
     (get_request (Some ''https://a.com/v/index.m3u8'') (Some ''bytes=0-15'')))) = 200 \<and>
   getHeader (fst (handler sample_URL (answering partial_playlist)
     (get_request (Some ''https://a.com/v/index.m3u8'') (Some ''bytes=0-15''))))
     ''Content-Range'' = None"
  by code_simp

end
